theory Spec2Isabelle
  imports Complex_Main
begin

section \<open>Gradientless descent: the stepping core of \<open>training/gld_trainer.py\<close>\<close>

text \<open>
  The development embeds the part of \<open>GLDTrainer\<close> that decides a step:
  \<open>__init__\<close>, \<open>gld_forward\<close>, \<open>gld_step\<close>, \<open>gld_update\<close>, \<open>do_trial\<close>,
  \<open>perturb_parameters\<close> and \<open>_list_not_in_name\<close>. Tensors hold real numbers (the
  statements about undoing a perturbation are statements of real arithmetic), a loss is a
  floating-point scalar of which only the comparison matters, and every exception of the
  source is a value of type \<open>error\<close>. The construction computes on Python numbers, with
  the infinities, the NaN, the overflow and the underflow of doubles; the stepping functions
  compute in real arithmetic, on the trainers whose radii are finite.
\<close>

subsection \<open>Values\<close>

datatype error = ZeroDivisionError | ValueError | OverflowError | TypeError | AttributeError

text \<open>
  A scalar loss: a finite value, an infinity or NaN. \<open>fl_less\<close> is the floating-point
  comparison \<open><\<close>: every comparison with NaN is false.
\<close>

datatype fl = Fin real | PInf | NInf | NaN

fun fl_less :: "fl \<Rightarrow> fl \<Rightarrow> bool" where
  "fl_less NaN y = False"
| "fl_less x NaN = False"
| "fl_less (Fin a) (Fin b) = (a < b)"
| "fl_less (Fin a) PInf = True"
| "fl_less (Fin a) NInf = False"
| "fl_less PInf y = False"
| "fl_less NInf NInf = False"
| "fl_less NInf y = True"

definition is_finite :: "fl \<Rightarrow> bool" where
  "is_finite x = (case x of Fin a \<Rightarrow> True | _ \<Rightarrow> False)"

type_synonym tensor = "real list"

definition tensor_add :: "tensor \<Rightarrow> tensor \<Rightarrow> tensor" where
  "tensor_add a b = map2 (+) a b"

definition tensor_scale :: "real \<Rightarrow> tensor \<Rightarrow> tensor" where
  "tensor_scale c v = map ((*) c) v"

text \<open>A named parameter of the model: \<open>(name, param)\<close> with \<open>param.requires_grad\<close> and \<open>param.data\<close>.\<close>

record param =
  pname :: string
  requires_grad :: bool
  pdata :: tensor

text \<open>An entry of \<open>self.losses\<close>: \<open>(loss, seed, scale)\<close>; the baseline has scale \<open>None\<close>.\<close>

type_synonym trial = "fl \<times> int \<times> real option"

text \<open>
  The attributes of the trainer that the stepping code reads and writes, together with the
  two process-wide generators it reseeds and draws from. An attribute that \<open>__init__\<close> does
  not assign is \<open>None\<close> until its first assignment, and reading it then raises
  \<open>AttributeError\<close>. \<open>named_parameters_to_optim\<close> is a list of references into the model's
  parameters: here, positions in \<open>model\<close>. \<open>lr_scheduler\<close> counts the calls of
  \<open>lr_scheduler.step()\<close>. Generator states are encoded as natural numbers.
\<close>

record trainer =
  use_gld :: bool
  min_radius :: real
  max_radius :: real
  best_scale :: "real option"
  log_radius :: real
  search_space :: "real list"
  gld_seed :: "int option"
  losses :: "trial list"
  model :: "param list"
  named_parameters_to_optim :: "nat list option"
  lr_scheduler :: nat
  torch_rng :: nat
  np_rng :: nat

text \<open>
  What the trainer takes from its libraries and its host: \<open>np.random.randint(1000000000)\<close>
  on numpy's generator, \<open>torch.manual_seed\<close>, one standard-normal draw of torch's
  generator, and \<open>compute_loss\<close> (on one replica, so that the \<open>mean()\<close> of \<open>gld_forward\<close>
  is the identity).
\<close>

record 'i env =
  np_randint :: "nat \<Rightarrow> int \<times> nat"
  torch_manual_seed :: "int \<Rightarrow> nat"
  torch_randn :: "nat \<Rightarrow> real \<times> nat"
  compute_loss :: "param list \<Rightarrow> 'i \<Rightarrow> fl"

subsection \<open>Library functions\<close>

text \<open>
  A Python number that can be passed as a radius: an \<open>int\<close> or a \<open>float\<close>.
\<close>

datatype number = PyInt int | PyFloat fl

text \<open>
  Floating-point arithmetic of the construction. A finite result within the range of a
  double is kept exact; a result of magnitude \<open>dbl_overflow\<close> or more rounds to an
  infinity, and one of magnitude \<open>dbl_underflow\<close> or less rounds to zero (the sign of a
  zero is not kept: no operation below tells the two zeros apart). Infinities and NaN
  follow IEEE 754.
\<close>

definition dbl_overflow :: real where
  "dbl_overflow = 2 ^ 1024 - 2 ^ 970"

definition dbl_underflow :: real where
  "dbl_underflow = 1 / 2 ^ 1075"

definition to_double :: "real \<Rightarrow> fl" where
  "to_double x =
     (if dbl_overflow \<le> x then PInf
      else if x \<le> - dbl_overflow then NInf
      else if \<bar>x\<bar> \<le> dbl_underflow then Fin 0
      else Fin x)"

fun fl_neg :: "fl \<Rightarrow> fl" where
  "fl_neg (Fin a) = Fin (- a)"
| "fl_neg PInf = NInf"
| "fl_neg NInf = PInf"
| "fl_neg NaN = NaN"

fun fl_add :: "fl \<Rightarrow> fl \<Rightarrow> fl" where
  "fl_add NaN y = NaN"
| "fl_add x NaN = NaN"
| "fl_add (Fin a) (Fin b) = to_double (a + b)"
| "fl_add PInf NInf = NaN"
| "fl_add NInf PInf = NaN"
| "fl_add PInf y = PInf"
| "fl_add x PInf = PInf"
| "fl_add NInf y = NInf"
| "fl_add x NInf = NInf"

definition fl_sub :: "fl \<Rightarrow> fl \<Rightarrow> fl" where
  "fl_sub x y = fl_add x (fl_neg y)"

text \<open>An infinity with the sign of \<open>a\<close>; the product of an infinity and zero is NaN.\<close>

definition signed_inf :: "real \<Rightarrow> fl" where
  "signed_inf a = (if a = 0 then NaN else if 0 < a then PInf else NInf)"

fun fl_mul :: "fl \<Rightarrow> fl \<Rightarrow> fl" where
  "fl_mul NaN y = NaN"
| "fl_mul x NaN = NaN"
| "fl_mul (Fin a) (Fin b) = to_double (a * b)"
| "fl_mul (Fin a) PInf = signed_inf a"
| "fl_mul (Fin a) NInf = signed_inf (- a)"
| "fl_mul PInf (Fin b) = signed_inf b"
| "fl_mul NInf (Fin b) = signed_inf (- b)"
| "fl_mul PInf PInf = PInf"
| "fl_mul PInf NInf = NInf"
| "fl_mul NInf PInf = NInf"
| "fl_mul NInf NInf = PInf"

text \<open>
  Division by a finite non-zero number or an infinity; the callers below divide by zero
  nowhere (\<open>py_truediv\<close> raises first, \<open>np_linspace\<close> divides by a positive count), so
  that IEEE's quotient by zero, which depends on the zero's sign, is given for a positive
  zero only.
\<close>

fun fl_div :: "fl \<Rightarrow> fl \<Rightarrow> fl" where
  "fl_div NaN y = NaN"
| "fl_div x NaN = NaN"
| "fl_div (Fin a) (Fin b) = (if b = 0 then signed_inf a else to_double (a / b))"
| "fl_div (Fin a) PInf = Fin 0"
| "fl_div (Fin a) NInf = Fin 0"
| "fl_div PInf (Fin b) = (if 0 \<le> b then PInf else NInf)"
| "fl_div NInf (Fin b) = (if 0 \<le> b then NInf else PInf)"
| "fl_div PInf y = NaN"
| "fl_div NInf y = NaN"

text \<open>
  The conversion of a number to a float, as the float operations do it to an \<open>int\<close>
  operand: an \<open>int\<close> too large for a double raises \<open>OverflowError\<close>.
\<close>

definition as_double :: "number \<Rightarrow> error + fl" where
  "as_double x =
     (case x of
        PyFloat f \<Rightarrow> Inr f
      | PyInt i \<Rightarrow>
          (if dbl_overflow \<le> \<bar>real_of_int i\<bar> then Inl OverflowError
           else Inr (Fin (real_of_int i))))"

text \<open>
  \<open>a / b\<close>. Two \<open>int\<close>s: a zero divisor raises \<open>ZeroDivisionError\<close>, a quotient too
  large for a double raises \<open>OverflowError\<close>, and the quotient is otherwise rounded to a
  double. With a \<open>float\<close> operand both operands are converted first, then a zero divisor
  raises \<open>ZeroDivisionError\<close>, and the quotient is IEEE's: it overflows to an infinity
  without raising.
\<close>

definition py_truediv :: "number \<Rightarrow> number \<Rightarrow> error + fl" where
  "py_truediv a b =
     (case (a, b) of
        (PyInt i, PyInt j) \<Rightarrow>
          (if j = 0 then Inl ZeroDivisionError
           else if dbl_overflow \<le> \<bar>real_of_int i / real_of_int j\<bar> then Inl OverflowError
           else Inr (to_double (real_of_int i / real_of_int j)))
      | _ \<Rightarrow>
          (case as_double a of
             Inl e \<Rightarrow> Inl e
           | Inr x \<Rightarrow>
               (case as_double b of
                  Inl e \<Rightarrow> Inl e
                | Inr y \<Rightarrow>
                    (if y = Fin 0 then Inl ZeroDivisionError else Inr (fl_div x y)))))"

text \<open>
  \<open>math.log\<close> of a float: NaN and \<open>+inf\<close> are returned as they are, and any other
  argument that is not positive raises \<open>ValueError\<close>.
\<close>

definition math_log :: "fl \<Rightarrow> error + fl" where
  "math_log x =
     (case x of
        NaN \<Rightarrow> Inr NaN
      | PInf \<Rightarrow> Inr PInf
      | NInf \<Rightarrow> Inl ValueError
      | Fin a \<Rightarrow> (if a \<le> 0 then Inl ValueError else Inr (Fin (ln a))))"

text \<open>
  \<open>np.linspace(start, stop, num)\<close> with \<open>endpoint=True\<close>: a negative \<open>num\<close> raises, the
  samples are \<open>arange(0, num) * step + start\<close> with \<open>step = (stop - start) / (num - 1)\<close>
  (or \<open>arange(0, num) / (num - 1) * (stop - start)\<close> when the step is zero, and
  \<open>arange(0, num) * (stop - start)\<close> for at most one sample), and the last of two or more
  samples is set to \<open>stop\<close>.
\<close>

definition np_linspace :: "fl \<Rightarrow> fl \<Rightarrow> int \<Rightarrow> error + fl list" where
  "np_linspace start stop num =
     (if num < 0 then Inl ValueError
      else
        let dv = num - 1;
            delta = fl_sub stop start;
            y = map (\<lambda>i. Fin (real i)) [0..<nat num];
            y = (if 0 < dv then
                   (let step = fl_div delta (Fin (real_of_int dv))
                    in if step = Fin 0
                       then map (\<lambda>v. fl_mul (fl_div v (Fin (real_of_int dv))) delta) y
                       else map (\<lambda>v. fl_mul v step) y)
                 else map (\<lambda>v. fl_mul v delta) y);
            y = map (\<lambda>v. fl_add v start) y
        in Inr (if 1 < num then y[nat num - 1 := stop] else y))"

text \<open>\<open>torch.normal(mean=0, std=1, size=n, ...)\<close>: \<open>n\<close> successive draws of the generator.\<close>

fun draws :: "(nat \<Rightarrow> real \<times> nat) \<Rightarrow> nat \<Rightarrow> nat \<Rightarrow> tensor \<times> nat" where
  "draws randn g 0 = ([], g)"
| "draws randn g (Suc n) =
     (let (x, g1) = randn g;
          (xs, g2) = draws randn g1 n
      in (x # xs, g2))"

text \<open>
  The keyword arguments \<open>torch.normal\<close> accepts; a call with any other keyword raises
  \<open>TypeError\<close>.
\<close>

definition torch_normal_keywords :: "string list" where
  "torch_normal_keywords =
     [''mean'', ''std'', ''size'', ''generator'', ''dtype'', ''layout'', ''device'',
      ''pin_memory'', ''requires_grad'', ''out'']"

definition torch_normal ::
  "string list \<Rightarrow> (nat \<Rightarrow> real \<times> nat) \<Rightarrow> nat \<Rightarrow> nat \<Rightarrow> error + (tensor \<times> nat)" where
  "torch_normal kwargs randn g n =
     (if list_all (\<lambda>k. k \<in> set torch_normal_keywords) kwargs then Inr (draws randn g n)
      else Inl TypeError)"

text \<open>
  \<open>min(xs, key=key)\<close>: the first item is the candidate, and a later item replaces the
  candidate when its key compares \<open><\<close> the candidate's; an empty sequence raises.
\<close>

fun py_min_from :: "('a \<Rightarrow> fl) \<Rightarrow> 'a \<Rightarrow> 'a list \<Rightarrow> 'a" where
  "py_min_from key cur [] = cur"
| "py_min_from key cur (x # xs) =
     py_min_from key (if fl_less (key x) (key cur) then x else cur) xs"

definition py_min :: "('a \<Rightarrow> fl) \<Rightarrow> 'a list \<Rightarrow> error + 'a" where
  "py_min key xs = (case xs of [] \<Rightarrow> Inl ValueError | x # rest \<Rightarrow> Inr (py_min_from key x rest))"

subsection \<open>Construction\<close>

text \<open>
  The stepping functions below compute in real arithmetic, on a trainer whose radii are
  real numbers. A trainer that \<open>__init__\<close> builds with such radii is \<open>Regular\<close>. One
  built with a radius, a \<open>log_radius\<close> or a search-space entry that is an infinity or
  NaN, or with an \<open>int\<close> radius beyond the range of a double, is \<open>Irregular\<close>, and is
  given by its \<open>min_radius\<close>, \<open>max_radius\<close>, \<open>log_radius\<close> and \<open>search_space\<close>.
\<close>

datatype construction = Regular trainer | Irregular number number fl "fl list"

definition finite_value :: "fl \<Rightarrow> real option" where
  "finite_value x = (case x of Fin a \<Rightarrow> Some a | _ \<Rightarrow> None)"

definition finite_number :: "number \<Rightarrow> real option" where
  "finite_number x =
     (case x of
        PyFloat f \<Rightarrow> finite_value f
      | PyInt i \<Rightarrow>
          (if dbl_overflow \<le> \<bar>real_of_int i\<bar> then None else Some (real_of_int i)))"

text \<open>
  \<open>GLDTrainer.__init__\<close>. The arguments after \<open>num_ball_samples\<close> stand for what
  \<open>super().__init__(**kwargs)\<close> and the process provide: the model, the scheduler's step
  count and the two generators.
\<close>

definition init ::
  "bool \<Rightarrow> number \<Rightarrow> number \<Rightarrow> int \<Rightarrow> param list \<Rightarrow> nat \<Rightarrow> nat \<Rightarrow> error + construction" where
  "init use_gld' min_radius' max_radius' num_ball_samples m g_torch g_np =
     (case py_truediv max_radius' min_radius' of
        Inl e \<Rightarrow> Inl e
      | Inr q \<Rightarrow>
          (case math_log q of
             Inl e \<Rightarrow> Inl e
           | Inr lr \<Rightarrow>
               (case np_linspace (Fin 0) lr num_ball_samples of
                  Inl e \<Rightarrow> Inl e
                | Inr space \<Rightarrow>
                    Inr (case (finite_number min_radius', finite_number max_radius',
                               finite_value lr, those (map finite_value space)) of
                           (Some mn, Some mx, Some r, Some rs) \<Rightarrow>
                             Regular \<lparr> use_gld = use_gld', min_radius = mn,
                               max_radius = mx, best_scale = None, log_radius = r,
                               search_space = rs, gld_seed = None, losses = [], model = m,
                               named_parameters_to_optim = None, lr_scheduler = 0,
                               torch_rng = g_torch, np_rng = g_np \<rparr>
                         | _ \<Rightarrow> Irregular min_radius' max_radius' lr space))))"

text \<open>The \<open>log_radius\<close> and the \<open>search_space\<close> of a constructed trainer, as floats.\<close>

definition log_radius_of :: "construction \<Rightarrow> fl" where
  "log_radius_of c =
     (case c of Regular self \<Rightarrow> Fin (log_radius self) | Irregular mn mx lr space \<Rightarrow> lr)"

definition search_space_of :: "construction \<Rightarrow> fl list" where
  "search_space_of c =
     (case c of Regular self \<Rightarrow> map Fin (search_space self)
      | Irregular mn mx lr space \<Rightarrow> space)"

text \<open>
  The lines of \<open>_inner_training_loop\<close> that collect the parameters to optimise: the
  parameters with \<open>requires_grad\<close>, in the order of \<open>model.named_parameters()\<close>.
\<close>

definition collect_parameters_to_optim :: "trainer \<Rightarrow> trainer" where
  "collect_parameters_to_optim self =
     self\<lparr> named_parameters_to_optim :=
             Some (filter (\<lambda>i. requires_grad (model self ! i)) [0..<length (model self)]) \<rparr>"

subsection \<open>The stepping functions\<close>

definition gld_forward :: "'i env \<Rightarrow> trainer \<Rightarrow> 'i \<Rightarrow> fl" where
  "gld_forward env self inputs = compute_loss env (model self) inputs"

text \<open>The sweep of \<open>perturb_parameters\<close> over \<open>named_parameters_to_optim\<close>.\<close>

fun perturb_loop ::
  "(nat \<Rightarrow> real \<times> nat) \<Rightarrow> real \<Rightarrow> nat list \<Rightarrow> param list \<Rightarrow> nat \<Rightarrow> error + (param list \<times> nat)" where
  "perturb_loop randn scale [] ps g = Inr (ps, g)"
| "perturb_loop randn scale (i # idxs) ps g =
     (let p = ps ! i
      in case torch_normal [''mean'', ''std'', ''size'', ''device'', ''dtype'']
                randn g (length (pdata p)) of
           Inl e \<Rightarrow> Inl e
         | Inr (v_k, g') \<Rightarrow>
             perturb_loop randn scale idxs
               (ps[i := p\<lparr>pdata := tensor_add (pdata p) (tensor_scale scale v_k)\<rparr>]) g')"

definition perturb_parameters ::
  "'i env \<Rightarrow> real \<Rightarrow> int option \<Rightarrow> trainer \<Rightarrow> error + trainer" where
  "perturb_parameters env scale seed self =
     (case (case seed of
              Some s \<Rightarrow> Inr s
            | None \<Rightarrow> (case gld_seed self of None \<Rightarrow> Inl AttributeError | Some s \<Rightarrow> Inr s)) of
        Inl e \<Rightarrow> Inl e
      | Inr s \<Rightarrow>
          (case named_parameters_to_optim self of
             None \<Rightarrow> Inl AttributeError
           | Some idxs \<Rightarrow>
               (case perturb_loop (torch_randn env) scale idxs (model self)
                       (torch_manual_seed env s) of
                  Inl e \<Rightarrow> Inl e
                | Inr (ps, g) \<Rightarrow> Inr (self\<lparr>model := ps, torch_rng := g\<rparr>))))"

definition do_trial :: "'i env \<Rightarrow> trainer \<Rightarrow> 'i \<Rightarrow> real \<Rightarrow> error + (trial \<times> trainer)" where
  "do_trial env self inputs scale =
     (let (s, r) = np_randint env (np_rng self);
          self1 = self\<lparr>gld_seed := Some s, np_rng := r\<rparr>
      in case perturb_parameters env scale None self1 of
           Inl e \<Rightarrow> Inl e
         | Inr self2 \<Rightarrow>
             (let loss = gld_forward env self2 inputs
              in case perturb_parameters env (-1 * scale) None self2 of
                   Inl e \<Rightarrow> Inl e
                 | Inr self3 \<Rightarrow>
                     (case gld_seed self3 of
                        None \<Rightarrow> Inl AttributeError
                      | Some seed \<Rightarrow> Inr ((loss, seed, Some scale), self3))))"

text \<open>The loop of \<open>gld_step\<close> over \<open>self.search_space\<close>.\<close>

fun ball_sampling :: "'i env \<Rightarrow> 'i \<Rightarrow> real list \<Rightarrow> trainer \<Rightarrow> error + trainer" where
  "ball_sampling env inputs [] self = Inr self"
| "ball_sampling env inputs (radius # rs) self =
     (let trial = (2 powr (-1 * radius)) * max_radius self
      in case do_trial env self inputs trial of
           Inl e \<Rightarrow> Inl e
         | Inr (loss_metrics, self1) \<Rightarrow>
             ball_sampling env inputs rs (self1\<lparr>losses := losses self1 @ [loss_metrics]\<rparr>))"

definition gld_step :: "'i env \<Rightarrow> trainer \<Rightarrow> 'i \<Rightarrow> error + (fl \<times> trainer)" where
  "gld_step env self inputs =
     (let self1 = self\<lparr>losses := []\<rparr>;
          (s, r) = np_randint env (np_rng self1);
          self2 = self1\<lparr>gld_seed := Some s, np_rng := r\<rparr>;
          loss = gld_forward env self2 inputs;
          self3 = self2\<lparr>losses := losses self2 @ [(loss, s, None)]\<rparr>
      in case ball_sampling env inputs (search_space self3) self3 of
           Inl e \<Rightarrow> Inl e
         | Inr self4 \<Rightarrow>
             (case py_min fst (losses self4) of
                Inl e \<Rightarrow> Inl e
              | Inr (loss', seed, scale) \<Rightarrow>
                  Inr (loss', self4\<lparr>gld_seed := Some seed, best_scale := scale\<rparr>)))"

definition NO_WD_PARAM_NAMES :: "string list" where
  "NO_WD_PARAM_NAMES = [''bias'', ''layer_norm'', ''layernorm'']"

text \<open>Python's \<open>t in name\<close> on strings: \<open>t\<close> occurs in \<open>name\<close> as a contiguous run.\<close>

fun str_contains :: "string \<Rightarrow> string \<Rightarrow> bool" where
  "str_contains [] t = (t = [])"
| "str_contains (c # cs) t = (take (length t) (c # cs) = t \<or> str_contains cs t)"

fun list_not_in_name :: "string list \<Rightarrow> string \<Rightarrow> bool" where
  "list_not_in_name [] name = True"
| "list_not_in_name (t # ts) name =
     (if str_contains name t then False else list_not_in_name ts name)"

text \<open>
  The loop of \<open>gld_update\<close> over \<open>self.model.named_parameters()\<close>, that is over every
  parameter of the model. The draw is the call
  \<open>torch.normal(mean=0, std=1, size=..., device=..., type=...)\<close> of the source.
\<close>

fun update_loop ::
  "(nat \<Rightarrow> real \<times> nat) \<Rightarrow> real option \<Rightarrow> param list \<Rightarrow> nat \<Rightarrow> error + (param list \<times> nat)" where
  "update_loop randn scale [] g = Inr ([], g)"
| "update_loop randn scale (p # ps) g =
     (case scale of
        None \<Rightarrow>
          (case update_loop randn scale ps g of
             Inl e \<Rightarrow> Inl e
           | Inr (ps', g') \<Rightarrow> Inr (p # ps', g'))
      | Some k \<Rightarrow>
          (case torch_normal [''mean'', ''std'', ''size'', ''device'', ''type'']
                  randn g (length (pdata p)) of
             Inl e \<Rightarrow> Inl e
           | Inr (v_k, g1) \<Rightarrow>
               (let p' = (if list_not_in_name NO_WD_PARAM_NAMES (pname p)
                          then p\<lparr>pdata := tensor_add (pdata p) (tensor_scale k v_k)\<rparr>
                          else p\<lparr>pdata := tensor_add (pdata p) (tensor_scale k v_k)\<rparr>)
                in case update_loop randn scale ps g1 of
                     Inl e \<Rightarrow> Inl e
                   | Inr (ps', g') \<Rightarrow> Inr (p' # ps', g'))))"

definition gld_update :: "'i env \<Rightarrow> trainer \<Rightarrow> error + trainer" where
  "gld_update env self =
     (case gld_seed self of
        None \<Rightarrow> Inl AttributeError
      | Some s \<Rightarrow>
          (case update_loop (torch_randn env) (best_scale self) (model self)
                  (torch_manual_seed env s) of
             Inl e \<Rightarrow> Inl e
           | Inr (ps, g) \<Rightarrow>
               Inr (self\<lparr>model := ps, torch_rng := g, lr_scheduler := lr_scheduler self + 1\<rparr>)))"

subsection \<open>Auxiliary notions for the proofs\<close>

text \<open>
  One iteration of the sweep of \<open>perturb_parameters\<close> with the draw \<open>v\<close> given:
  parameter \<open>i\<close> becomes \<open>p.data + c * v\<close>. \<open>shapes\<close> lists the sizes of the
  parameters' tensors.
\<close>

definition shift :: "real \<Rightarrow> nat \<Rightarrow> tensor \<Rightarrow> param list \<Rightarrow> param list" where
  "shift c i v ps = ps[i := (ps ! i)\<lparr>pdata := tensor_add (pdata (ps ! i)) (tensor_scale c v)\<rparr>]"

definition shapes :: "param list \<Rightarrow> nat list" where
  "shapes ps = map (\<lambda>p. length (pdata p)) ps"

text \<open>The scales of the perturbed trials of a step, in the order of the search space.\<close>

definition trial_scales :: "trainer \<Rightarrow> real list" where
  "trial_scales self = map (\<lambda>radius. (2 powr (-1 * radius)) * max_radius self) (search_space self)"

subsection \<open>A concrete instance\<close>

text \<open>
  Deterministic stand-ins for the generators and the loss, and a model with one trainable
  and one frozen parameter, on which the functions above can be evaluated:
  \<open>constructed0\<close> is the trainer that \<open>__init__\<close> builds for \<open>min_radius = 1\<close>,
  \<open>max_radius = 8\<close> and \<open>num_ball_samples = 1\<close>, and \<open>trainer0\<close> is that trainer once the
  training loop has collected the parameters to optimise.
\<close>

definition env0 :: "unit env" where
  "env0 = \<lparr> np_randint = (\<lambda>r. (int r, Suc r)),
            torch_manual_seed = (\<lambda>s. nat \<bar>s\<bar>),
            torch_randn = (\<lambda>g. (real g + 1, Suc g)),
            compute_loss = (\<lambda>ps u. Fin (sum_list (concat (map pdata ps)))) \<rparr>"

definition model0 :: "param list" where
  "model0 = [\<lparr>pname = ''w'', requires_grad = True, pdata = [1, 2]\<rparr>,
             \<lparr>pname = ''frozen.bias'', requires_grad = False, pdata = [5]\<rparr>]"

definition constructed0 :: trainer where
  "constructed0 = \<lparr> use_gld = True, min_radius = 1, max_radius = 8, best_scale = None,
      log_radius = ln 8, search_space = [0], gld_seed = None, losses = [], model = model0,
      named_parameters_to_optim = None, lr_scheduler = 0, torch_rng = 0, np_rng = 0 \<rparr>"

definition trainer0 :: trainer where
  "trainer0 = constructed0\<lparr> named_parameters_to_optim := Some [0] \<rparr>"

text \<open>
  Two further losses for the same trainer: one that is \<open>+inf\<close> on the unperturbed
  parameters and \<open>-inf\<close> elsewhere, and one that is NaN everywhere. The trainers
  \<open>after_step...\<close> are the results of one \<open>gld_step\<close> under the three losses.
\<close>

definition env_inf :: "unit env" where
  "env_inf = env0\<lparr> compute_loss := (\<lambda>ps u. if ps = model trainer0 then PInf else NInf) \<rparr>"

definition env_nan :: "unit env" where
  "env_nan = env0\<lparr> compute_loss := (\<lambda>ps u. NaN) \<rparr>"

definition after_step0 :: trainer where
  "after_step0 = trainer0\<lparr>gld_seed := Some 0, np_rng := 2, torch_rng := 3,
      losses := [(Fin 8, 0, None), (Fin 48, 1, Some 8)], best_scale := None\<rparr>"

definition after_step_inf :: trainer where
  "after_step_inf = trainer0\<lparr>gld_seed := Some 1, np_rng := 2, torch_rng := 3,
      losses := [(PInf, 0, None), (NInf, 1, Some 8)], best_scale := Some 8\<rparr>"

definition after_step_nan :: trainer where
  "after_step_nan = trainer0\<lparr>gld_seed := Some 0, np_rng := 2, torch_rng := 3,
      losses := [(NaN, 0, None), (NaN, 1, Some 8)], best_scale := None\<rparr>"

text \<open>
  A loss that decreases under the perturbation of the concrete instance, so that the
  perturbed trial wins the step, and the trainer after that step.
\<close>

definition env_neg :: "unit env" where
  "env_neg = env0\<lparr> compute_loss := (\<lambda>ps u. Fin (- sum_list (concat (map pdata ps)))) \<rparr>"

definition after_step_neg :: trainer where
  "after_step_neg = trainer0\<lparr>gld_seed := Some 1, np_rng := 2, torch_rng := 3,
      losses := [(Fin (- 8), 0, None), (Fin (- 48), 1, Some 8)], best_scale := Some 8\<rparr>"

text \<open>
  The trainer that \<open>__init__\<close> builds for \<open>min_radius = 1\<close>, \<open>max_radius = 8\<close> and
  \<open>num_ball_samples = 4\<close>.
\<close>

definition constructed_1_8_4 :: trainer where
  "constructed_1_8_4 = \<lparr> use_gld = True, min_radius = 1, max_radius = 8, best_scale = None,
      log_radius = ln 8, search_space = [0, ln 8 / 3, 2 * ln 8 / 3, ln 8],
      gld_seed = None, losses = [], model = model0, named_parameters_to_optim = None,
      lr_scheduler = 0, torch_rng = 0, np_rng = 0 \<rparr>"

section \<open>Properties\<close>

text \<open>The definitions that the evaluation of a step on the concrete instance unfolds.\<close>

lemmas eval_defs = gld_step_def gld_forward_def do_trial_def perturb_parameters_def
  torch_normal_def torch_normal_keywords_def tensor_add_def tensor_scale_def py_min_def
  trainer0_def constructed0_def model0_def env0_def


subsection \<open>Comparison of losses and \<open>min\<close>\<close>

lemma fl_less_irrefl: "\<not> fl_less x x"
  by (cases x) simp_all

lemma fl_less_trans: "fl_less x y \<Longrightarrow> fl_less y z \<Longrightarrow> fl_less x z"
  by (cases x; cases y; cases z) simp_all

lemma fl_less_total: "x \<noteq> NaN \<Longrightarrow> y \<noteq> NaN \<Longrightarrow> fl_less x y \<or> x = y \<or> fl_less y x"
  by (cases x; cases y) auto

lemma py_min_from_cur_or_less:
  "py_min_from key cur xs = cur \<or> fl_less (key (py_min_from key cur xs)) (key cur)"
proof (induction xs arbitrary: cur)
  case Nil
  show ?case by simp
next
  case (Cons x xs)
  show ?case
  proof (cases "fl_less (key x) (key cur)")
    case True
    with Cons.IH [of x] show ?thesis by (auto intro: fl_less_trans)
  next
    case False
    with Cons.IH [of cur] show ?thesis by simp
  qed
qed

lemma py_min_from_lower:
  "\<forall>y \<in> set (cur # xs). \<not> fl_less (key y) (key (py_min_from key cur xs))"
proof (induction xs arbitrary: cur)
  case Nil
  show ?case by (simp add: fl_less_irrefl)
next
  case (Cons x xs)
  let ?c = "if fl_less (key x) (key cur) then x else cur"
  let ?w = "py_min_from key ?c xs"
  have w: "py_min_from key cur (x # xs) = ?w" by simp
  have ih: "\<forall>y \<in> set (?c # xs). \<not> fl_less (key y) (key ?w)" by (rule Cons.IH)
  have cw: "?w = ?c \<or> fl_less (key ?w) (key ?c)" by (rule py_min_from_cur_or_less)
  have "\<not> fl_less (key cur) (key ?w)"
    using ih cw by (auto split: if_splits dest: fl_less_trans simp: fl_less_irrefl)
  moreover have "\<not> fl_less (key x) (key ?w)"
    using ih cw by (auto split: if_splits dest: fl_less_trans)
  ultimately show ?case using ih unfolding w by simp
qed

lemma py_min_from_first:
  "py_min_from key cur xs = cur \<or>
   (\<exists>pre post. xs = pre @ py_min_from key cur xs # post \<and>
      fl_less (key (py_min_from key cur xs)) (key cur) \<and>
      (\<forall>y \<in> set pre. key y \<noteq> key (py_min_from key cur xs)))"
proof (induction xs arbitrary: cur)
  case Nil
  show ?case by simp
next
  case (Cons x xs)
  let ?c = "if fl_less (key x) (key cur) then x else cur"
  let ?w = "py_min_from key ?c xs"
  have w: "py_min_from key cur (x # xs) = ?w" by simp
  from Cons.IH [of ?c]
  consider (same) "?w = ?c"
    | (later) pre post where "xs = pre @ ?w # post" "fl_less (key ?w) (key ?c)"
        "\<forall>y \<in> set pre. key y \<noteq> key ?w"
    by blast
  then show ?case
  proof cases
    case same
    show ?thesis
    proof (cases "fl_less (key x) (key cur)")
      case True
      with same have "x # xs = [] @ ?w # xs" "fl_less (key ?w) (key cur)" by simp_all
      then show ?thesis unfolding w by (metis empty_iff list.set(1))
    next
      case False
      with same show ?thesis by simp
    qed
  next
    case later
    have xw: "key x \<noteq> key ?w"
      using later(2) by (auto split: if_splits simp: fl_less_irrefl)
    have lt: "fl_less (key ?w) (key cur)"
      using later(2) by (auto split: if_splits dest: fl_less_trans)
    have "x # xs = (x # pre) @ ?w # post" using later(1) by simp
    moreover have "\<forall>y \<in> set (x # pre). key y \<noteq> key ?w" using xw later(3) by simp
    ultimately show ?thesis unfolding w using lt by blast
  qed
qed

lemma py_min_from_keep:
  "\<forall>x \<in> set xs. \<not> fl_less (key x) (key cur) \<Longrightarrow> py_min_from key cur xs = cur"
  by (induction xs) simp_all

lemma py_min_from_split:
  "\<exists>pre post. cur # xs = pre @ py_min_from key cur xs # post \<and>
     (\<forall>y \<in> set pre. key y \<noteq> key (py_min_from key cur xs))"
proof -
  let ?w = "py_min_from key cur xs"
  from py_min_from_first [of key cur xs]
  consider (same) "?w = cur"
    | (later) pre post where "xs = pre @ ?w # post" "fl_less (key ?w) (key cur)"
        "\<forall>y \<in> set pre. key y \<noteq> key ?w"
    by blast
  then show ?thesis
  proof cases
    case same
    then have "cur # xs = [] @ ?w # xs \<and> (\<forall>y \<in> set []. key y \<noteq> key ?w)" by simp
    then show ?thesis by blast
  next
    case later
    have "key cur \<noteq> key ?w" using later(2) fl_less_irrefl by metis
    then have "cur # xs = (cur # pre) @ ?w # post \<and> (\<forall>y \<in> set (cur # pre). key y \<noteq> key ?w)"
      using later(1,3) by simp
    then show ?thesis by blast
  qed
qed

lemma py_min_from_least:
  assumes "\<forall>y \<in> set (cur # xs). key y \<noteq> NaN"
  shows "\<forall>y \<in> set (cur # xs). key y = key (py_min_from key cur xs) \<or>
           fl_less (key (py_min_from key cur xs)) (key y)"
proof
  fix y assume y: "y \<in> set (cur # xs)"
  let ?w = "py_min_from key cur xs"
  have "?w \<in> set (cur # xs)" using py_min_from_split [of cur xs key] by (metis in_set_conv_decomp)
  then have "key ?w \<noteq> NaN" using assms by blast
  moreover have "key y \<noteq> NaN" using assms y by blast
  moreover have "\<not> fl_less (key y) (key ?w)" using py_min_from_lower [of cur xs key] y by blast
  ultimately show "key y = key ?w \<or> fl_less (key ?w) (key y)"
    using fl_less_total by blast
qed

lemma fl_less_nonfinite:
  "\<not> is_finite x \<Longrightarrow> \<not> is_finite y \<Longrightarrow> fl_less x y \<Longrightarrow> x = NInf \<and> y = PInf"
  by (cases x; cases y) (simp_all add: is_finite_def)

subsection \<open>Perturbing and undoing\<close>

lemma length_draws: "length (fst (draws randn g n)) = n"
  by (induction n arbitrary: g) (simp_all add: split_beta Let_def)

lemma torch_normal_dtype:
  "torch_normal [''mean'', ''std'', ''size'', ''device'', ''dtype''] randn g n = Inr (draws randn g n)"
  by (simp add: torch_normal_def torch_normal_keywords_def)

lemma torch_normal_type:
  "torch_normal [''mean'', ''std'', ''size'', ''device'', ''type''] randn g n = Inl TypeError"
  by (simp add: torch_normal_def torch_normal_keywords_def)

lemma perturb_loop_Cons:
  "perturb_loop randn c (i # idxs) ps g =
     perturb_loop randn c idxs (shift c i (fst (draws randn g (length (pdata (ps ! i))))) ps)
       (snd (draws randn g (length (pdata (ps ! i)))))"
  by (simp add: torch_normal_dtype shift_def split_beta Let_def)

lemma length_shift: "length (shift c i v ps) = length ps"
  by (simp add: shift_def)

lemma length_tensor_add:
  "length v = length x \<Longrightarrow> length (tensor_add x (tensor_scale c v)) = length x"
  by (simp add: tensor_add_def tensor_scale_def)

lemma shapes_shift:
  "length v = length (pdata (ps ! i)) \<Longrightarrow> shapes (shift c i v ps) = shapes ps"
  by (cases "i < length ps")
     (auto simp: shapes_def shift_def length_tensor_add nth_list_update intro!: nth_equalityI)

lemma shapes_nth: "shapes ps = shapes qs \<Longrightarrow> i < length ps \<Longrightarrow>
   length (pdata (ps ! i)) = length (pdata (qs ! i))"
  by (metis length_map nth_map shapes_def)

lemma shapes_length: "shapes ps = shapes qs \<Longrightarrow> length ps = length qs"
  by (metis length_map shapes_def)

lemma tensor_add_commute:
  "tensor_add (tensor_add x a) b = tensor_add (tensor_add x b) a"
proof (induction x arbitrary: a b)
  case Nil
  show ?case by (simp add: tensor_add_def)
next
  case (Cons y x)
  then show ?case by (cases a; cases b) (simp_all add: tensor_add_def)
qed

lemma shift_beyond: "\<not> i < length ps \<Longrightarrow> shift c i v ps = ps"
  by (simp add: shift_def not_less list_update_beyond)

lemma shift_commute:
  "shift c i v (shift d j w ps) = shift d j w (shift c i v ps)"
proof (cases "i = j")
  case True
  show ?thesis
  proof (cases "j < length ps")
    case True
    with \<open>i = j\<close> show ?thesis by (simp add: shift_def tensor_add_commute)
  next
    case False
    with \<open>i = j\<close> show ?thesis by (simp add: shift_beyond)
  qed
next
  case False
  then show ?thesis
    by (simp add: shift_def list_update_swap)
qed

lemma tensor_add_undo:
  "length v = length x \<Longrightarrow>
   tensor_add (tensor_add x (tensor_scale c v)) (tensor_scale (- c) v) = x"
  by (rule nth_equalityI) (simp_all add: tensor_add_def tensor_scale_def)

lemma shift_undo:
  "i < length ps \<Longrightarrow> length v = length (pdata (ps ! i)) \<Longrightarrow>
   shift (- c) i v (shift c i v ps) = ps"
  by (simp add: shift_def tensor_add_undo)

lemma perturb_loop_total:
  "\<exists>qs g'. perturb_loop randn c idxs ps g = Inr (qs, g')"
proof (induction idxs arbitrary: ps g)
  case Nil
  show ?case by simp
next
  case (Cons i idxs)
  show ?case unfolding perturb_loop_Cons by (rule Cons.IH)
qed

lemma perturb_loop_shapes:
  "\<forall>j \<in> set idxs. j < length ps \<Longrightarrow> perturb_loop randn c idxs ps g = Inr (qs, g') \<Longrightarrow>
   shapes qs = shapes ps"
proof (induction idxs arbitrary: ps g)
  case Nil
  then show ?case by simp
next
  case (Cons i idxs)
  let ?v = "fst (draws randn g (length (pdata (ps ! i))))"
  let ?g = "snd (draws randn g (length (pdata (ps ! i))))"
  have sh: "shapes (shift c i ?v ps) = shapes ps"
    by (rule shapes_shift) (rule length_draws)
  have "shapes qs = shapes (shift c i ?v ps)"
  proof (rule Cons.IH)
    show "\<forall>j \<in> set idxs. j < length (shift c i ?v ps)"
      using Cons.prems(1) by (simp add: length_shift)
    show "perturb_loop randn c idxs (shift c i ?v ps) ?g = Inr (qs, g')"
      using Cons.prems(2) unfolding perturb_loop_Cons .
  qed
  with sh show ?case by simp
qed

lemma perturb_loop_shift:
  assumes "\<forall>j \<in> set idxs. j < length ps"
    and "i < length ps"
    and "length v = length (pdata (ps ! i))"
    and "perturb_loop randn c idxs ps g = Inr (qs, g')"
  shows "perturb_loop randn c idxs (shift d i v ps) g = Inr (shift d i v qs, g')"
  using assms
proof (induction idxs arbitrary: ps g)
  case Nil
  then show ?case by simp
next
  case (Cons j idxs)
  let ?n = "length (pdata (ps ! j))"
  let ?w = "fst (draws randn g ?n)"
  let ?g = "snd (draws randn g ?n)"
  have j: "j < length ps" using Cons.prems(1) by simp
  have sh: "shapes (shift d i v ps) = shapes ps"
    using Cons.prems(3) by (rule shapes_shift)
  have n: "length (pdata (shift d i v ps ! j)) = ?n"
    using shapes_nth [OF sh] j by (simp add: length_shift)
  have wlen: "length ?w = length (pdata (ps ! j))" by (rule length_draws)
  have shw: "shapes (shift c j ?w ps) = shapes ps" using wlen by (rule shapes_shift)
  have r: "perturb_loop randn c idxs (shift c j ?w ps) ?g = Inr (qs, g')"
    using Cons.prems(4) unfolding perturb_loop_Cons .
  have i1: "\<forall>k \<in> set idxs. k < length (shift c j ?w ps)"
    using Cons.prems(1) by (simp add: length_shift)
  have i2: "i < length (shift c j ?w ps)"
    using Cons.prems(2) by (simp add: length_shift)
  have i3: "length v = length (pdata (shift c j ?w ps ! i))"
    using shapes_nth [OF shw] Cons.prems(2,3) by (simp add: length_shift)
  have "perturb_loop randn c idxs (shift d i v (shift c j ?w ps)) ?g = Inr (shift d i v qs, g')"
    using i1 i2 i3 r by (rule Cons.IH)
  then show ?case
    unfolding perturb_loop_Cons n by (simp add: shift_commute [of c j])
qed

lemma perturb_loop_undo:
  assumes "\<forall>j \<in> set idxs. j < length ps"
    and "perturb_loop randn c idxs ps g = Inr (qs, g')"
  shows "perturb_loop randn (- c) idxs qs g = Inr (ps, g')"
  using assms
proof (induction idxs arbitrary: ps g)
  case Nil
  then show ?case by simp
next
  case (Cons i idxs)
  let ?n = "length (pdata (ps ! i))"
  let ?v = "fst (draws randn g ?n)"
  let ?g = "snd (draws randn g ?n)"
  let ?ps = "shift c i ?v ps"
  have i: "i < length ps" using Cons.prems(1) by simp
  have vlen: "length ?v = length (pdata (ps ! i))" by (rule length_draws)
  have r: "perturb_loop randn c idxs ?ps ?g = Inr (qs, g')"
    using Cons.prems(2) unfolding perturb_loop_Cons .
  have idx: "\<forall>j \<in> set idxs. j < length ?ps" using Cons.prems(1) by (simp add: length_shift)
  have undone: "perturb_loop randn (- c) idxs qs ?g = Inr (?ps, g')"
    using idx r by (rule Cons.IH)
  have shq: "shapes qs = shapes ps"
    using Cons.prems by (rule perturb_loop_shapes)
  have lenq: "length qs = length ps" using shq by (rule shapes_length)
  have nq: "length (pdata (qs ! i)) = ?n"
    using shapes_nth [OF shq] i lenq by simp
  have "perturb_loop randn (- c) idxs (shift (- c) i ?v qs) ?g = Inr (shift (- c) i ?v ?ps, g')"
  proof (rule perturb_loop_shift [OF _ _ _ undone])
    show "\<forall>j \<in> set idxs. j < length qs" using Cons.prems(1) lenq by simp
    show "i < length qs" using i lenq by simp
    show "length ?v = length (pdata (qs ! i))" using nq vlen by simp
  qed
  then show ?case
    unfolding perturb_loop_Cons nq by (simp add: shift_undo [OF i vlen])
qed

subsection \<open>What a step leaves unchanged\<close>

lemma perturb_parameters_frame:
  "perturb_parameters env k sd self = Inr self' \<Longrightarrow>
   \<exists>ps g. self' = self\<lparr>model := ps, torch_rng := g\<rparr>"
  by (auto simp: perturb_parameters_def split: option.splits sum.splits)

lemma do_trial_frame:
  assumes "do_trial env self inputs k = Inr (t, self')"
  shows "\<exists>s r ps g. self' = self\<lparr>gld_seed := s, np_rng := r, model := ps, torch_rng := g\<rparr> \<and>
         snd (snd t) = Some k"
proof -
  obtain s r where sr: "np_randint env (np_rng self) = (s, r)" by (cases "np_randint env (np_rng self)")
  let ?self1 = "self\<lparr>gld_seed := Some s, np_rng := r\<rparr>"
  from assms sr obtain self2 where
    p1: "perturb_parameters env k None ?self1 = Inr self2" and
    p2: "perturb_parameters env (-1 * k) None self2 = Inr self'" and
    res: "snd (snd t) = Some k"
    by (auto simp: do_trial_def Let_def split: sum.splits option.splits)
  from perturb_parameters_frame [OF p1] obtain ps g where
    s2: "self2 = ?self1\<lparr>model := ps, torch_rng := g\<rparr>" by blast
  from perturb_parameters_frame [OF p2] obtain qs h where
    s3: "self' = self2\<lparr>model := qs, torch_rng := h\<rparr>" by blast
  have "self' = self\<lparr>gld_seed := Some s, np_rng := r, model := qs, torch_rng := h\<rparr>"
    unfolding s3 s2 by simp
  with res show ?thesis by blast
qed

lemma ball_sampling_frame:
  "ball_sampling env inputs rs self = Inr self' \<Longrightarrow>
   \<exists>s r ps g ts.
     self' = self\<lparr>gld_seed := s, np_rng := r, model := ps, torch_rng := g,
                   losses := losses self @ ts\<rparr> \<and>
     map (\<lambda>t. snd (snd t)) ts = map (\<lambda>radius. Some ((2 powr (-1 * radius)) * max_radius self)) rs"
proof (induction rs arbitrary: self)
  case Nil
  then have "self' = self\<lparr>gld_seed := gld_seed self, np_rng := np_rng self, model := model self,
     torch_rng := torch_rng self, losses := losses self @ []\<rparr>" by simp
  then show ?case by (metis list.simps(8))
next
  case (Cons radius rs)
  let ?k = "(2 powr (-1 * radius)) * max_radius self"
  from Cons.prems obtain t self1 where
    d: "do_trial env self inputs ?k = Inr (t, self1)" and
    b: "ball_sampling env inputs rs (self1\<lparr>losses := losses self1 @ [t]\<rparr>) = Inr self'"
    by (auto simp: Let_def split: sum.splits)
  from do_trial_frame [OF d] obtain s r ps g where
    s1: "self1 = self\<lparr>gld_seed := s, np_rng := r, model := ps, torch_rng := g\<rparr>"
    and t: "snd (snd t) = Some ?k" by blast
  from Cons.IH [OF b] obtain s' r' ps' g' ts where
    s2: "self' = (self1\<lparr>losses := losses self1 @ [t]\<rparr>)\<lparr>gld_seed := s', np_rng := r',
            model := ps', torch_rng := g',
            losses := losses (self1\<lparr>losses := losses self1 @ [t]\<rparr>) @ ts\<rparr>"
    and ts: "map (\<lambda>t. snd (snd t)) ts =
             map (\<lambda>radius. Some ((2 powr (-1 * radius)) * max_radius (self1\<lparr>losses := losses self1 @ [t]\<rparr>))) rs"
    by blast
  have "self' = self\<lparr>gld_seed := s', np_rng := r', model := ps', torch_rng := g',
                      losses := losses self @ (t # ts)\<rparr>"
    unfolding s2 s1 by simp
  moreover have "map (\<lambda>t. snd (snd t)) (t # ts) =
      map (\<lambda>radius. Some ((2 powr (-1 * radius)) * max_radius self)) (radius # rs)"
    using t ts unfolding s1 by simp
  ultimately show ?case by blast
qed

lemma gld_step_frame:
  assumes "gld_step env self inputs = Inr (l, self')"
  shows "\<exists>s0 ts seed.
     losses self' = (compute_loss env (model self) inputs, s0, None) # ts \<and>
     map (\<lambda>t. snd (snd t)) ts = map Some (trial_scales self) \<and>
     py_min_from fst (compute_loss env (model self) inputs, s0, None) ts = (l, seed, best_scale self') \<and>
     gld_seed self' = Some seed \<and> lr_scheduler self' = lr_scheduler self \<and>
     search_space self' = search_space self \<and> max_radius self' = max_radius self"
proof -
  obtain s r where sr: "np_randint env (np_rng self) = (s, r)" by (cases "np_randint env (np_rng self)")
  let ?base = "(compute_loss env (model self) inputs, s, None :: real option)"
  let ?self3 = "self\<lparr>gld_seed := Some s, np_rng := r, losses := [?base]\<rparr>"
  from assms sr obtain self4 seed scale where
    b: "ball_sampling env inputs (search_space self) ?self3 = Inr self4" and
    m: "py_min fst (losses self4) = Inr (l, seed, scale)" and
    r: "self' = self4\<lparr>gld_seed := Some seed, best_scale := scale\<rparr>"
    by (auto simp: gld_step_def gld_forward_def Let_def split: sum.splits prod.splits)
  from ball_sampling_frame [OF b] obtain s' r' ps g ts where
    s4: "self4 = ?self3\<lparr>gld_seed := s', np_rng := r', model := ps, torch_rng := g,
                          losses := losses ?self3 @ ts\<rparr>"
    and ts: "map (\<lambda>t. snd (snd t)) ts =
             map (\<lambda>radius. Some ((2 powr (-1 * radius)) * max_radius ?self3)) (search_space self)"
    by blast
  have l4: "losses self4 = ?base # ts" unfolding s4 by simp
  have "py_min_from fst ?base ts = (l, seed, scale)"
    using m unfolding l4 by (simp add: py_min_def)
  moreover have "map (\<lambda>t. snd (snd t)) ts = map Some (trial_scales self)"
    using ts by (simp add: trial_scales_def)
  ultimately show ?thesis unfolding r s4 by auto
qed

lemma perturb_parameters_undo:
  assumes optim: "named_parameters_to_optim self = Some idxs"
    and inside: "\<forall>i \<in> set idxs. i < length (model self)"
    and seed: "sd = Some s \<or> sd = None \<and> gld_seed self = Some s"
  shows "\<exists>ps g.
           perturb_parameters env k sd self = Inr (self\<lparr>model := ps, torch_rng := g\<rparr>) \<and>
           perturb_parameters env (- k) sd (self\<lparr>model := ps, torch_rng := g\<rparr>)
             = Inr (self\<lparr>torch_rng := g\<rparr>)"
proof -
  obtain qs g' where fwd:
    "perturb_loop (torch_randn env) k idxs (model self) (torch_manual_seed env s) = Inr (qs, g')"
    using perturb_loop_total by blast
  have bwd:
    "perturb_loop (torch_randn env) (- k) idxs qs (torch_manual_seed env s) = Inr (model self, g')"
    using inside fwd by (rule perturb_loop_undo)
  have one: "perturb_parameters env k sd self = Inr (self\<lparr>model := qs, torch_rng := g'\<rparr>)"
    using seed by (auto simp: perturb_parameters_def optim fwd)
  have two: "perturb_parameters env (- k) sd (self\<lparr>model := qs, torch_rng := g'\<rparr>)
               = Inr (self\<lparr>torch_rng := g'\<rparr>)"
    using seed by (auto simp: perturb_parameters_def optim bwd)
  show ?thesis using one two by blast
qed

lemma do_trial_total:
  assumes optim: "named_parameters_to_optim self = Some idxs"
    and inside: "\<forall>i \<in> set idxs. i < length (model self)"
  shows "\<exists>loss s r g. do_trial env self inputs k =
           Inr ((loss, s, Some k), self\<lparr>gld_seed := Some s, np_rng := r, torch_rng := g\<rparr>)"
proof -
  obtain s r where sr: "np_randint env (np_rng self) = (s, r)" by (cases "np_randint env (np_rng self)")
  let ?self1 = "self\<lparr>gld_seed := Some s, np_rng := r\<rparr>"
  have o1: "named_parameters_to_optim ?self1 = Some idxs" using optim by simp
  have i1: "\<forall>i \<in> set idxs. i < length (model ?self1)" using inside by simp
  have s1: "None = Some s \<or> None = None \<and> gld_seed ?self1 = Some s" by simp
  from perturb_parameters_undo [OF o1 i1 s1, of env k] obtain ps g where
    p1: "perturb_parameters env k None ?self1 = Inr (?self1\<lparr>model := ps, torch_rng := g\<rparr>)" and
    p2: "perturb_parameters env (- k) None (?self1\<lparr>model := ps, torch_rng := g\<rparr>)
           = Inr (?self1\<lparr>torch_rng := g\<rparr>)"
    by blast
  have "do_trial env self inputs k =
          Inr ((gld_forward env (?self1\<lparr>model := ps, torch_rng := g\<rparr>) inputs, s, Some k),
               self\<lparr>gld_seed := Some s, np_rng := r, torch_rng := g\<rparr>)"
    using p1 p2 by (simp add: do_trial_def sr)
  then show ?thesis by blast
qed

lemma ball_sampling_total:
  assumes optim: "named_parameters_to_optim self = Some idxs"
    and inside: "\<forall>i \<in> set idxs. i < length (model self)"
  shows "\<exists>s r g ts. ball_sampling env inputs rs self =
           Inr (self\<lparr>gld_seed := s, np_rng := r, torch_rng := g, losses := losses self @ ts\<rparr>)"
  using assms
proof (induction rs arbitrary: self)
  case Nil
  have "self = self\<lparr>gld_seed := gld_seed self, np_rng := np_rng self,
     torch_rng := torch_rng self, losses := losses self @ []\<rparr>" by simp
  then have "ball_sampling env inputs [] self = Inr (self\<lparr>gld_seed := gld_seed self, np_rng := np_rng self,
     torch_rng := torch_rng self, losses := losses self @ []\<rparr>)" by simp
  then show ?case by blast
next
  case (Cons radius rs)
  let ?k = "(2 powr (-1 * radius)) * max_radius self"
  from do_trial_total [OF Cons.prems, of env inputs ?k] obtain loss s r g where
    d: "do_trial env self inputs ?k =
          Inr ((loss, s, Some ?k), self\<lparr>gld_seed := Some s, np_rng := r, torch_rng := g\<rparr>)"
    by blast
  let ?self1 = "self\<lparr>gld_seed := Some s, np_rng := r, torch_rng := g,
                     losses := losses self @ [(loss, s, Some ?k)]\<rparr>"
  have o1: "named_parameters_to_optim ?self1 = Some idxs" using Cons.prems(1) by simp
  have i1: "\<forall>i \<in> set idxs. i < length (model ?self1)" using Cons.prems(2) by simp
  from Cons.IH [OF o1 i1] obtain s' r' g' ts where
    b: "ball_sampling env inputs rs ?self1 =
          Inr (?self1\<lparr>gld_seed := s', np_rng := r', torch_rng := g', losses := losses ?self1 @ ts\<rparr>)"
    by blast
  have "ball_sampling env inputs (radius # rs) self =
          Inr (self\<lparr>gld_seed := s', np_rng := r', torch_rng := g',
                    losses := losses self @ ((loss, s, Some ?k) # ts)\<rparr>)"
    using d b by simp
  then show ?case by blast
qed

lemma gld_step_total:
  assumes optim: "named_parameters_to_optim self = Some idxs"
    and inside: "\<forall>i \<in> set idxs. i < length (model self)"
  shows "\<exists>l self'. gld_step env self inputs = Inr (l, self') \<and> model self' = model self"
proof -
  obtain s r where sr: "np_randint env (np_rng self) = (s, r)" by (cases "np_randint env (np_rng self)")
  let ?base = "(compute_loss env (model self) inputs, s, None :: real option)"
  let ?self3 = "self\<lparr>gld_seed := Some s, np_rng := r, losses := [?base]\<rparr>"
  have o3: "named_parameters_to_optim ?self3 = Some idxs" using optim by simp
  have i3: "\<forall>i \<in> set idxs. i < length (model ?self3)" using inside by simp
  from ball_sampling_total [OF o3 i3, of env inputs "search_space self"] obtain s' r' g ts where
    b: "ball_sampling env inputs (search_space self) ?self3 =
          Inr (?self3\<lparr>gld_seed := s', np_rng := r', torch_rng := g, losses := losses ?self3 @ ts\<rparr>)"
    by blast
  obtain l seed scale where w: "py_min_from fst ?base ts = (l, seed, scale)"
    by (cases "py_min_from fst ?base ts")
  have "gld_step env self inputs =
          Inr (l, self\<lparr>np_rng := r', torch_rng := g, losses := ?base # ts,
                       gld_seed := Some seed, best_scale := scale\<rparr>)"
    using b w by (simp add: gld_step_def gld_forward_def sr py_min_def)
  then show ?thesis by auto
qed

subsection \<open>The update and the construction on the concrete instance\<close>

lemma update_loop_None: "update_loop randn None ps g = Inr (ps, g)"
  by (induction ps) simp_all

lemma update_loop_Some: "ps \<noteq> [] \<Longrightarrow> update_loop randn (Some k) ps g = Inl TypeError"
  by (cases ps) (simp_all add: torch_normal_type)

lemma gld_update_baseline:
  "gld_seed self = Some s \<Longrightarrow> best_scale self = None \<Longrightarrow>
   gld_update env self =
     Inr (self\<lparr>torch_rng := torch_manual_seed env s, lr_scheduler := lr_scheduler self + 1\<rparr>)"
  by (simp add: gld_update_def update_loop_None)

lemma gld_update_type_error:
  "gld_seed self = Some s \<Longrightarrow> best_scale self = Some k \<Longrightarrow> model self \<noteq> [] \<Longrightarrow>
   gld_update env self = Inl TypeError"
  by (simp add: gld_update_def update_loop_Some)

lemma gld_update_unset: "gld_seed self = None \<Longrightarrow> gld_update env self = Inl AttributeError"
  by (simp add: gld_update_def)

lemma collect0: "collect_parameters_to_optim constructed0 = trainer0"
  by (simp add: collect_parameters_to_optim_def trainer0_def constructed0_def model0_def upt_rec)

subsection \<open>Construction and the scales of the trials\<close>

lemma dbl_underflow_small: "0 < dbl_underflow" "dbl_underflow < 1 / 8"
  by (simp_all add: dbl_underflow_def)

lemma dbl_overflow_large: "8 < dbl_overflow"
  by (simp add: dbl_overflow_def)

lemma to_double_Fin:
  "dbl_underflow < \<bar>x\<bar> \<Longrightarrow> \<bar>x\<bar> < dbl_overflow \<Longrightarrow> to_double x = Fin x"
  by (auto simp: to_double_def)

lemma to_double_zero: "to_double 0 = Fin 0"
  using dbl_underflow_small(1) dbl_overflow_large by (simp add: to_double_def)

lemma to_double_moderate: "1 / 8 \<le> \<bar>x\<bar> \<Longrightarrow> \<bar>x\<bar> \<le> 8 \<Longrightarrow> to_double x = Fin x"
  using dbl_underflow_small(2) dbl_overflow_large by (intro to_double_Fin) linarith+

lemma ln2_bounds: "1 / 2 \<le> ln (2::real)" "ln (2::real) < 1"
proof -
  have "ln (1 / 2 :: real) \<le> 1 / 2 - 1" by (rule ln_le_minus_one) simp
  moreover have "ln (1 / 2 :: real) = - ln 2" by (simp add: ln_div)
  ultimately show "1 / 2 \<le> ln (2::real)" by simp
  show "ln (2::real) < 1" by (rule ln_2_less_1)
qed

lemmas init_defs = init_def py_truediv_def as_double_def math_log_def np_linspace_def
  fl_sub_def finite_number_def finite_value_def Let_def

lemma ln8: "ln (8::real) = 3 * ln 2"
proof -
  have "ln ((2::real) ^ 3) = real 3 * ln 2" by (rule ln_realpow)
  then show ?thesis by simp
qed

lemma to_double_ln8: "to_double (ln 8) = Fin (ln 8)" "to_double (ln 8 / 3) = Fin (ln 8 / 3)"
  "to_double (2 * ln 8 / 3) = Fin (2 * ln 8 / 3)"
  using ln2_bounds by (auto intro!: to_double_moderate simp: ln8)

lemma to_double_8: "to_double 8 = Fin 8" "to_double (1 / 2) = Fin (1 / 2)"
  by (auto intro!: to_double_moderate)

lemma init_constructed0:
  "init True (PyFloat (Fin 1)) (PyFloat (Fin 8)) 1 model0 0 0 = Inr (Regular constructed0)"
  by (simp add: init_defs to_double_8 to_double_ln8 to_double_zero constructed0_def)

lemma init_1_8_4:
  "init True (PyFloat (Fin 1)) (PyFloat (Fin 8)) 4 model0 0 0 = Inr (Regular constructed_1_8_4)"
  by (simp add: init_defs to_double_8 to_double_ln8 to_double_zero constructed_1_8_4_def upt_rec)

lemma to_double_ln_half: "to_double (ln (1 / 2)) = Fin (ln (1 / 2))"
  "to_double (ln (1 / 2) / 3) = Fin (ln (1 / 2) / 3)"
  "to_double (2 * ln (1 / 2) / 3) = Fin (2 * ln (1 / 2) / 3)"
  using ln2_bounds by (auto intro!: to_double_moderate simp: ln_div)

lemma init_2_1_4:
  "init True (PyFloat (Fin 2)) (PyFloat (Fin 1)) 4 model0 0 0 =
     Inr (Regular \<lparr> use_gld = True, min_radius = 2, max_radius = 1, best_scale = None,
           log_radius = ln (1 / 2),
           search_space = [0, ln (1 / 2) / 3, 2 * ln (1 / 2) / 3, ln (1 / 2)],
           gld_seed = None, losses = [], model = model0, named_parameters_to_optim = None,
           lr_scheduler = 0, torch_rng = 0, np_rng = 0 \<rparr>)"
  by (simp add: init_defs to_double_8 to_double_ln_half to_double_zero upt_rec)

lemma init_1_8_0:
  "init True (PyFloat (Fin 1)) (PyFloat (Fin 8)) 0 model0 0 0 =
     Inr (Regular \<lparr> use_gld = True, min_radius = 1, max_radius = 8, best_scale = None,
           log_radius = ln 8, search_space = [], gld_seed = None, losses = [],
           model = model0, named_parameters_to_optim = None, lr_scheduler = 0,
           torch_rng = 0, np_rng = 0 \<rparr>)"
  by (simp add: init_defs to_double_8 to_double_ln8 to_double_zero)



lemma init_underflow:
  "init True (PyFloat (Fin (2 ^ 1023))) (PyFloat (Fin (1 / 2 ^ 1022))) 4 model0 0 0 =
     Inl ValueError"
  by (simp add: init_defs to_double_def dbl_overflow_def dbl_underflow_def)

lemma init_int_overflow:
  "init True (PyInt 1) (PyInt (2 ^ 1024)) 4 model0 0 0 = Inl OverflowError"
  by (simp add: init_defs dbl_overflow_def)

lemma finite_value_Some: "finite_value x = Some r \<longleftrightarrow> x = Fin r"
  by (cases x) (simp_all add: finite_value_def)

lemma those_finite_values:
  "those (map finite_value xs) = Some rs \<Longrightarrow> map Fin rs = xs"
proof (induction xs arbitrary: rs)
  case Nil
  then show ?case by simp
next
  case (Cons x xs)
  then show ?case
    by (auto simp: finite_value_Some split: option.splits)
qed

lemma init_result:
  assumes "py_truediv mx mn = Inr q" "math_log q = Inr lr"
    "np_linspace (Fin 0) lr n = Inr space"
  shows "\<exists>c. init u mn mx n m g1 g2 = Inr c \<and> log_radius_of c = lr \<and>
           search_space_of c = space"
proof (cases "\<exists>a b r rs. finite_number mn = Some a \<and> finite_number mx = Some b \<and>
     finite_value lr = Some r \<and> those (map finite_value space) = Some rs")
  case True
  then obtain a b r rs where f: "finite_number mn = Some a" "finite_number mx = Some b"
    "finite_value lr = Some r" "those (map finite_value space) = Some rs" by blast
  have "lr = Fin r" using f(3) by (simp add: finite_value_Some)
  moreover have "map Fin rs = space" using f(4) by (rule those_finite_values)
  ultimately show ?thesis
    using assms f by (simp add: init_def log_radius_of_def search_space_of_def)
next
  case False
  then have "init u mn mx n m g1 g2 = Inr (Irregular mn mx lr space)"
    using assms by (auto simp: init_def split: option.splits)
  then show ?thesis by (simp add: log_radius_of_def search_space_of_def)
qed

lemma init_Regular:
  assumes "init u mn mx n m g1 g2 = Inr (Regular self)"
  shows "\<exists>q space. py_truediv mx mn = Inr q \<and> math_log q = Inr (Fin (log_radius self)) \<and>
           np_linspace (Fin 0) (Fin (log_radius self)) n = Inr space \<and>
           map Fin (search_space self) = space \<and>
           finite_number mx = Some (max_radius self) \<and>
           finite_number mn = Some (min_radius self) \<and>
           gld_seed self = None \<and> best_scale self = None"
proof -
  from assms obtain q lr space where
    q: "py_truediv mx mn = Inr q" "math_log q = Inr lr" "np_linspace (Fin 0) lr n = Inr space"
    by (auto simp: init_def split: sum.splits)
  from assms q obtain a b r rs where
    f: "finite_number mn = Some a" "finite_number mx = Some b"
       "finite_value lr = Some r" "those (map finite_value space) = Some rs"
    and s: "self = \<lparr> use_gld = u, min_radius = a, max_radius = b, best_scale = None,
              log_radius = r, search_space = rs, gld_seed = None, losses = [], model = m,
              named_parameters_to_optim = None, lr_scheduler = 0, torch_rng = g1,
              np_rng = g2 \<rparr>"
    by (auto simp: init_def split: option.splits)
  have "lr = Fin r" using f(3) by (simp add: finite_value_Some)
  moreover have "map Fin rs = space" using f(4) by (rule those_finite_values)
  ultimately show ?thesis using q f s by simp
qed

lemma length_np_linspace:
  "np_linspace start stop n = Inr space \<Longrightarrow> length space = nat n"
  by (auto simp: np_linspace_def Let_def split: if_splits)

lemma np_linspace_total: "0 \<le> n \<Longrightarrow> \<exists>space. np_linspace start stop n = Inr space"
  by (simp add: np_linspace_def Let_def)

lemma np_linspace_negative: "n < 0 \<Longrightarrow> np_linspace start stop n = Inl ValueError"
  by (simp add: np_linspace_def)

lemma py_truediv_floats:
  "a \<noteq> 0 \<Longrightarrow> py_truediv (PyFloat (Fin b)) (PyFloat (Fin a)) = Inr (to_double (b / a))"
  "py_truediv (PyFloat (Fin b)) (PyFloat (Fin 0)) = Inl ZeroDivisionError"
  by (simp_all add: py_truediv_def as_double_def)

lemma math_log_to_double:
  assumes "dbl_underflow < x"
  shows "math_log (to_double x) = Inr (if x < dbl_overflow then Fin (ln x) else PInf)"
proof -
  have p: "0 < x" using assms dbl_underflow_small(1) by linarith
  show ?thesis
  proof (cases "x < dbl_overflow")
    case True
    then have "to_double x = Fin x" using assms p by (intro to_double_Fin) simp_all
    then show ?thesis using True p by (simp add: math_log_def)
  next
    case False
    then have "to_double x = PInf" by (simp add: to_double_def)
    then show ?thesis using False by (simp add: math_log_def)
  qed
qed

lemma math_log_nonpositive:
  assumes "x \<le> dbl_underflow"
  shows "math_log (to_double x) = Inl ValueError"
proof -
  have o: "\<not> dbl_overflow \<le> x"
    using assms dbl_underflow_small(2) dbl_overflow_large by linarith
  show ?thesis
  proof (cases "\<bar>x\<bar> \<le> dbl_underflow")
    case True
    then show ?thesis using o by (simp add: to_double_def math_log_def)
  next
    case False
    then have "x < 0" using assms by linarith
    then show ?thesis using o False by (simp add: to_double_def math_log_def)
  qed
qed

lemma powr_neg_numerals:
  "(2::real) powr (- 1) = 1 / 2" "(2::real) powr (- 2) = 1 / 4" "(2::real) powr (- 3) = 1 / 8"
proof -
  have "(2::real) powr (- 1) = inverse (2 powr 1)" by (rule powr_minus)
  then show "(2::real) powr (- 1) = 1 / 2" by simp
  have "(2::real) powr (- 2) = inverse (2 powr 2)" by (rule powr_minus)
  then show "(2::real) powr (- 2) = 1 / 4" by simp
  have "(2::real) powr (- 3) = inverse (2 powr 3)" by (rule powr_minus)
  then show "(2::real) powr (- 3) = 1 / 8" by simp
qed

lemma scale_bounds:
  "4 < 8 * (2::real) powr (- ln 2)" "2 < 8 * (2::real) powr (- (2 * ln 2))"
  "1 < 8 * (2::real) powr (- ln 8)"
proof -
  have l: "ln (2::real) < 1" by (rule ln_2_less_1)
  have "(2::real) powr (- 1) < 2 powr (- ln 2)"
    by (rule powr_less_mono) (use l in simp_all)
  then have "1 / 2 < (2::real) powr (- ln 2)" unfolding powr_neg_numerals .
  then show "4 < 8 * (2::real) powr (- ln 2)" by linarith
  have "(2::real) powr (- 2) < 2 powr (- (2 * ln 2))"
    by (rule powr_less_mono) (use l in simp_all)
  then have "1 / 4 < (2::real) powr (- (2 * ln 2))" unfolding powr_neg_numerals .
  then show "2 < 8 * (2::real) powr (- (2 * ln 2))" by linarith
  have "(2::real) powr (- 3) < 2 powr (- ln 8)"
    by (rule powr_less_mono) (use l in \<open>simp_all add: ln8\<close>)
  then have "1 / 8 < (2::real) powr (- ln 8)" unfolding powr_neg_numerals .
  then show "1 < 8 * (2::real) powr (- ln 8)" by linarith
qed

lemma scale_order:
  "8 * (2::real) powr (- ln 2) < 8"
  "8 * (2::real) powr (- (2 * ln 2)) < 8 * 2 powr (- ln 2)"
  "8 * (2::real) powr (- ln 8) < 8 * 2 powr (- (2 * ln 2))"
proof -
  have l: "0 < ln (2::real)" by simp
  have "(2::real) powr (- ln 2) < 2 powr 0"
    by (rule powr_less_mono) (use l in simp_all)
  then show "8 * (2::real) powr (- ln 2) < 8" by simp
  have "(2::real) powr (- (2 * ln 2)) < 2 powr (- ln 2)"
    by (rule powr_less_mono) (use l in simp_all)
  then show "8 * (2::real) powr (- (2 * ln 2)) < 8 * 2 powr (- ln 2)" by simp
  have "(2::real) powr (- ln 8) < 2 powr (- (2 * ln 2))"
    by (rule powr_less_mono) (use l in \<open>simp_all add: ln8\<close>)
  then show "8 * (2::real) powr (- ln 8) < 8 * 2 powr (- (2 * ln 2))" by simp
qed

lemma scales_1_8_4:
  "trial_scales constructed_1_8_4 =
     [8, 8 * 2 powr (- ln 2), 8 * 2 powr (- (2 * ln 2)), 8 * 2 powr (- ln 8)]"
  by (simp add: trial_scales_def constructed_1_8_4_def ln8)

subsection \<open>Perturbation round trip\<close>

text \<open>
  C3. When \<open>named_parameters_to_optim\<close> refers to parameters of the model, calling
  \<open>perturb_parameters\<close> with scale \<open>k\<close> and seed \<open>s\<close> and then with scale \<open>- k\<close> and the
  same seed succeeds both times and restores every parameter of the model to its value
  before the first call, exactly in real arithmetic: both calls reseed the generator with
  \<open>s\<close>, draw the same vectors in the same order and leave the generator in the same state.
  Nothing but the generator's state differs from the trainer before the two calls.
\<close>

theorem perturb_parameters_round_trip:
  assumes optim: "named_parameters_to_optim self = Some idxs"
    and inside: "\<forall>i \<in> set idxs. i < length (model self)"
  shows "\<exists>self1 self2.
           perturb_parameters env k (Some s) self = Inr self1 \<and>
           perturb_parameters env (- k) (Some s) self1 = Inr self2 \<and>
           model self2 = model self \<and>
           torch_rng self2 = torch_rng self1 \<and>
           self2 = self\<lparr>torch_rng := torch_rng self1\<rparr>"
proof -
  obtain qs g' where fwd:
    "perturb_loop (torch_randn env) k idxs (model self) (torch_manual_seed env s) = Inr (qs, g')"
    using perturb_loop_total by blast
  have bwd:
    "perturb_loop (torch_randn env) (- k) idxs qs (torch_manual_seed env s) = Inr (model self, g')"
    using inside fwd by (rule perturb_loop_undo)
  let ?self1 = "self\<lparr>model := qs, torch_rng := g'\<rparr>"
  have one: "perturb_parameters env k (Some s) self = Inr ?self1"
    by (simp add: perturb_parameters_def optim fwd)
  have two: "perturb_parameters env (- k) (Some s) ?self1 = Inr (self\<lparr>torch_rng := g'\<rparr>)"
    by (simp add: perturb_parameters_def optim bwd)
  show ?thesis using one two by simp
qed

theorem perturb_parameters_round_trip_witness:
  "named_parameters_to_optim trainer0 = Some [0] \<and> 0 < length (model trainer0) \<and>
   (\<exists>self1 self2.
      perturb_parameters env0 3 (Some 7) trainer0 = Inr self1 \<and>
      perturb_parameters env0 (- 3) (Some 7) self1 = Inr self2 \<and>
      model self2 = model trainer0 \<and>
      torch_rng self2 = torch_rng self1 \<and>
      self2 = trainer0\<lparr>torch_rng := torch_rng self1\<rparr>)"
proof -
  have a: "named_parameters_to_optim trainer0 = Some [0]"
    by (simp add: trainer0_def constructed0_def model0_def)
  have b: "\<forall>i \<in> set [0]. i < length (model trainer0)"
    by (simp add: trainer0_def constructed0_def model0_def)
  have c: "0 < length (model trainer0)" using b by simp
  show ?thesis using a c perturb_parameters_round_trip [OF a b, of env0 3 7] by blast
qed

subsection \<open>Parameters across a step\<close>

text \<open>
  C4. When \<open>named_parameters_to_optim\<close> refers to parameters of the model, every call of
  \<open>gld_step\<close> returns, and the parameters of the model after it are the parameters
  before it, exactly in real arithmetic. Every single \<open>do_trial\<close> returns with the
  parameters it started from, and the baseline evaluation \<open>gld_forward\<close> only reads the
  trainer, so no parameter is changed for good before \<open>gld_update\<close> runs.
\<close>

theorem gld_step_restores_parameters:
  assumes optim: "named_parameters_to_optim self = Some idxs"
    and inside: "\<forall>i \<in> set idxs. i < length (model self)"
  shows "(\<exists>l self'. gld_step env self inputs = Inr (l, self') \<and> model self' = model self) \<and>
         (\<forall>k. \<exists>t self1. do_trial env self inputs k = Inr (t, self1) \<and> model self1 = model self)"
proof
  show "\<exists>l self'. gld_step env self inputs = Inr (l, self') \<and> model self' = model self"
    using optim inside by (rule gld_step_total)
  show "\<forall>k. \<exists>t self1. do_trial env self inputs k = Inr (t, self1) \<and> model self1 = model self"
  proof
    fix k
    from do_trial_total [OF optim inside, of env inputs k] obtain loss s r g where
      "do_trial env self inputs k =
         Inr ((loss, s, Some k), self\<lparr>gld_seed := Some s, np_rng := r, torch_rng := g\<rparr>)"
      by blast
    then show "\<exists>t self1. do_trial env self inputs k = Inr (t, self1) \<and> model self1 = model self"
      by simp
  qed
qed

theorem gld_step_restores_parameters_witness:
  "named_parameters_to_optim trainer0 = Some [0] \<and> 0 < length (model trainer0) \<and>
   (\<exists>l self'. gld_step env0 trainer0 () = Inr (l, self') \<and> model self' = model trainer0) \<and>
   (\<exists>t self1. do_trial env0 trainer0 () 8 = Inr (t, self1) \<and> model self1 = model trainer0)"
proof -
  have a: "named_parameters_to_optim trainer0 = Some [0]"
    by (simp add: trainer0_def constructed0_def model0_def)
  have b: "\<forall>i \<in> set [0]. i < length (model trainer0)"
    by (simp add: trainer0_def constructed0_def model0_def)
  have c: "0 < length (model trainer0)" using b by simp
  show ?thesis using a c gld_step_restores_parameters [OF a b, of env0 "()"] by blast
qed

subsection \<open>Selecting the winner\<close>

text \<open>
  C2. Whenever \<open>gld_step\<close> returns, \<open>self.losses\<close> is the baseline trial (the loss of the
  unperturbed model, scale \<open>None\<close>) followed by one trial per radius of the search space, in
  order, with the scales \<open>2 ** (-radius) * max_radius\<close>. The returned loss \<open>l\<close> is the loss
  of the selected trial, whose seed and scale become \<open>gld_seed\<close> and \<open>best_scale\<close>; no
  trial has a loss that compares \<open><\<close> \<open>l\<close>, and no trial before the selected one has the
  loss \<open>l\<close>. When no loss is NaN, \<open>l\<close> is the least loss and every earlier trial has a
  strictly greater one, so the first trial with the least loss wins. When no perturbed trial
  is strictly below the baseline, in particular on a tie, the baseline is selected. On the
  losses \<open>0.9, 1.2, 0.5, 0.5\<close> the third trial is selected.
\<close>

theorem gld_step_winner:
  assumes "gld_step env self inputs = Inr (l, self')"
  shows "(\<exists>s0 ts pre post seed.
      losses self' = (compute_loss env (model self) inputs, s0, None) # ts \<and>
      map (\<lambda>t. snd (snd t)) ts = map Some (trial_scales self) \<and>
      losses self' = pre @ (l, seed, best_scale self') # post \<and>
      gld_seed self' = Some seed \<and>
      (\<forall>t \<in> set (losses self'). \<not> fl_less (fst t) l) \<and>
      (\<forall>t \<in> set pre. fst t \<noteq> l) \<and>
      ((\<forall>t \<in> set (losses self'). fst t \<noteq> NaN) \<longrightarrow>
         (\<forall>t \<in> set (losses self'). fst t = l \<or> fl_less l (fst t)) \<and>
         (\<forall>t \<in> set pre. fl_less l (fst t))) \<and>
      ((\<forall>t \<in> set ts. \<not> fl_less (fst t) (compute_loss env (model self) inputs)) \<longrightarrow>
         (l, seed, best_scale self') = (compute_loss env (model self) inputs, s0, None))) \<and>
    py_min fst [(Fin (9/10), 11, None), (Fin (12/10), 12, Some 8), (Fin (5/10), 13, Some 4),
                (Fin (5/10), 14, Some (2::real))] = Inr (Fin (5/10), 13::int, Some 4)"
proof
  let ?b = "compute_loss env (model self) inputs"
  from gld_step_frame [OF assms] obtain s0 ts seed where
    ls: "losses self' = (?b, s0, None) # ts" and
    sc: "map (\<lambda>t. snd (snd t)) ts = map Some (trial_scales self)" and
    w: "py_min_from fst (?b, s0, None) ts = (l, seed, best_scale self')" and
    gs: "gld_seed self' = Some seed"
    by blast
  let ?base = "(?b, s0, None :: real option)"
  from py_min_from_split [of ?base ts fst] obtain pre post where
    sp: "?base # ts = pre @ (l, seed, best_scale self') # post" and
    fr: "\<forall>y \<in> set pre. fst y \<noteq> l"
    unfolding w by auto
  have lo: "\<forall>t \<in> set (?base # ts). \<not> fl_less (fst t) l"
    using py_min_from_lower [of ?base ts fst] unfolding w by simp
  have le: "(\<forall>t \<in> set (?base # ts). fst t \<noteq> NaN) \<longrightarrow>
         (\<forall>t \<in> set (?base # ts). fst t = l \<or> fl_less l (fst t))"
    using py_min_from_least [of ?base ts fst] unfolding w by simp
  have pre_sub: "set pre \<subseteq> set (?base # ts)" unfolding sp by auto
  have st: "(\<forall>t \<in> set (?base # ts). fst t \<noteq> NaN) \<longrightarrow> (\<forall>t \<in> set pre. fl_less l (fst t))"
    using le fr pre_sub by blast
  have keep: "(\<forall>t \<in> set ts. \<not> fl_less (fst t) ?b) \<longrightarrow> (l, seed, best_scale self') = ?base"
    using py_min_from_keep [of ts fst ?base] unfolding w by simp
  show "\<exists>s0 ts pre post seed.
      losses self' = (?b, s0, None) # ts \<and>
      map (\<lambda>t. snd (snd t)) ts = map Some (trial_scales self) \<and>
      losses self' = pre @ (l, seed, best_scale self') # post \<and>
      gld_seed self' = Some seed \<and>
      (\<forall>t \<in> set (losses self'). \<not> fl_less (fst t) l) \<and>
      (\<forall>t \<in> set pre. fst t \<noteq> l) \<and>
      ((\<forall>t \<in> set (losses self'). fst t \<noteq> NaN) \<longrightarrow>
         (\<forall>t \<in> set (losses self'). fst t = l \<or> fl_less l (fst t)) \<and>
         (\<forall>t \<in> set pre. fl_less l (fst t))) \<and>
      ((\<forall>t \<in> set ts. \<not> fl_less (fst t) ?b) \<longrightarrow> (l, seed, best_scale self') = (?b, s0, None))"
    apply (rule exI [of _ s0], rule exI [of _ ts], rule exI [of _ pre], rule exI [of _ post],
           rule exI [of _ seed])
    using ls sc sp gs lo fr le st keep unfolding ls by simp
  show "py_min fst [(Fin (9/10), 11, None), (Fin (12/10), 12, Some 8), (Fin (5/10), 13, Some 4),
                (Fin (5/10), 14, Some (2::real))] = Inr (Fin (5/10), 13::int, Some 4)"
    by (simp add: py_min_def)
qed

theorem gld_step_winner_witness:
  "gld_step env0 trainer0 () = Inr (Fin 8, after_step0) \<and>
   ((\<exists>s0 ts pre post seed.
      losses after_step0 = (compute_loss env0 (model trainer0) (), s0, None) # ts \<and>
      map (\<lambda>t. snd (snd t)) ts = map Some (trial_scales trainer0) \<and>
      losses after_step0 = pre @ (Fin 8, seed, best_scale after_step0) # post \<and>
      gld_seed after_step0 = Some seed \<and>
      (\<forall>t \<in> set (losses after_step0). \<not> fl_less (fst t) (Fin 8)) \<and>
      (\<forall>t \<in> set pre. fst t \<noteq> Fin 8) \<and>
      ((\<forall>t \<in> set (losses after_step0). fst t \<noteq> NaN) \<longrightarrow>
         (\<forall>t \<in> set (losses after_step0). fst t = Fin 8 \<or> fl_less (Fin 8) (fst t)) \<and>
         (\<forall>t \<in> set pre. fl_less (Fin 8) (fst t))) \<and>
      ((\<forall>t \<in> set ts. \<not> fl_less (fst t) (compute_loss env0 (model trainer0) ())) \<longrightarrow>
         (Fin 8, seed, best_scale after_step0) = (compute_loss env0 (model trainer0) (), s0, None))) \<and>
    py_min fst [(Fin (9/10), 11, None), (Fin (12/10), 12, Some 8), (Fin (5/10), 13, Some 4),
                (Fin (5/10), 14, Some (2::real))] = Inr (Fin (5/10), 13::int, Some 4))"
proof -
  have p: "gld_step env0 trainer0 () = Inr (Fin 8, after_step0)"
    by (simp add: eval_defs after_step0_def)
  show ?thesis by (rule conjI [OF p gld_step_winner [OF p]])
qed

subsection \<open>Losses that are not finite\<close>

text \<open>
  C9, as stated, fails: with a baseline loss \<open>+inf\<close> and a perturbed trial of loss
  \<open>-inf\<close> every loss of the trial set is non-finite, yet \<open>-inf < +inf\<close> holds and the
  perturbed trial is selected, its loss returned.
\<close>

theorem gld_step_nonfinite_counterexample:
  "gld_step env_inf trainer0 () = Inr (NInf, after_step_inf) \<and>
   losses after_step_inf = [(PInf, 0, None), (NInf, 1, Some 8)] \<and>
   \<not> is_finite PInf \<and> \<not> is_finite NInf \<and>
   best_scale after_step_inf = Some 8 \<and> gld_seed after_step_inf = Some 1"
  by (simp add: eval_defs env_inf_def after_step_inf_def is_finite_def)

text \<open>
  C9, amended. The selection compares with \<open><\<close> and treats no loss specially. If every
  loss of the trial set is non-finite, the baseline is selected and its loss returned,
  except when the baseline loss is \<open>+inf\<close> and some trial has the loss \<open>-inf\<close>; in
  particular the baseline is selected when every loss is NaN.
\<close>

theorem gld_step_nonfinite_baseline:
  assumes step: "gld_step env self inputs = Inr (l, self')"
    and nonfinite: "\<forall>t \<in> set (losses self'). \<not> is_finite (fst t)"
    and excluded: "\<not> (compute_loss env (model self) inputs = PInf \<and>
                      (\<exists>t \<in> set (losses self'). fst t = NInf))"
  shows "l = compute_loss env (model self) inputs \<and> best_scale self' = None \<and>
         (\<exists>seed ts. losses self' = (l, seed, None) # ts \<and> gld_seed self' = Some seed)"
proof -
  let ?b = "compute_loss env (model self) inputs"
  from gld_step_frame [OF step] obtain s0 ts seed where
    ls: "losses self' = (?b, s0, None) # ts" and
    w: "py_min_from fst (?b, s0, None) ts = (l, seed, best_scale self')" and
    gs: "gld_seed self' = Some seed"
    by blast
  have "\<forall>t \<in> set ts. \<not> fl_less (fst t) ?b"
  proof
    fix t assume t: "t \<in> set ts"
    show "\<not> fl_less (fst t) ?b"
    proof
      assume "fl_less (fst t) ?b"
      moreover have "\<not> is_finite (fst t)" "\<not> is_finite ?b" using nonfinite t ls by simp_all
      ultimately have "fst t = NInf \<and> ?b = PInf" by (metis fl_less_nonfinite)
      with excluded t ls show False by auto
    qed
  qed
  then have "py_min_from fst (?b, s0, None) ts = (?b, s0, None)"
    using py_min_from_keep [of ts fst "(?b, s0, None)"] by simp
  with w have "l = ?b" "seed = s0" "best_scale self' = None" by simp_all
  with ls gs show ?thesis by simp
qed

theorem gld_step_nonfinite_baseline_witness:
  "gld_step env_nan trainer0 () = Inr (NaN, after_step_nan) \<and>
   losses after_step_nan = [(NaN, 0, None), (NaN, 1, Some 8)] \<and> \<not> is_finite NaN \<and>
   compute_loss env_nan (model trainer0) () \<noteq> PInf \<and>
   NaN = compute_loss env_nan (model trainer0) () \<and> best_scale after_step_nan = None \<and>
   (\<exists>seed ts. losses after_step_nan = (NaN, seed, None) # ts \<and>
      gld_seed after_step_nan = Some seed)"
proof -
  have p: "gld_step env_nan trainer0 () = Inr (NaN, after_step_nan)"
    by (simp add: eval_defs env_nan_def after_step_nan_def)
  have ls: "losses after_step_nan = [(NaN, 0, None), (NaN, 1, Some 8)]"
    by (simp add: after_step_nan_def)
  have nf: "\<not> is_finite NaN" by (simp add: is_finite_def)
  have b: "compute_loss env_nan (model trainer0) () \<noteq> PInf" by (simp add: env_nan_def)
  have q: "\<forall>t \<in> set (losses after_step_nan). \<not> is_finite (fst t)"
    using ls nf by simp
  have r: "\<not> (compute_loss env_nan (model trainer0) () = PInf \<and>
        (\<exists>t \<in> set (losses after_step_nan). fst t = NInf))"
    using b by simp
  show ?thesis using p ls nf b gld_step_nonfinite_baseline [OF p q r] by blast
qed

subsection \<open>Committing the update\<close>

text \<open>
  C1. The claim does not hold of the code. After a step that a perturbed trial won (seed
  \<open>1\<close>, scale \<open>8\<close>), \<open>gld_update\<close> raises \<open>TypeError\<close> at its first parameter, because
  it passes the keyword \<open>type\<close> to \<open>torch.normal\<close> where \<open>perturb_parameters\<close> passes
  \<open>dtype\<close>, and changes no parameter; \<open>perturb_parameters\<close> with the winning seed and
  scale adds \<open>8 * v_k\<close> to the trainable parameter.
\<close>

theorem gld_update_differs_from_perturb_parameters:
  "gld_step env_neg trainer0 () = Inr (Fin (- 48), after_step_neg) \<and>
   gld_seed after_step_neg = Some 1 \<and> best_scale after_step_neg = Some 8 \<and>
   gld_update env_neg after_step_neg = Inl TypeError \<and>
   perturb_parameters env_neg 8 (Some 1) after_step_neg =
     Inr (after_step_neg\<lparr>model := [\<lparr>pname = ''w'', requires_grad = True, pdata = [17, 26]\<rparr>,
                                     \<lparr>pname = ''frozen.bias'', requires_grad = False, pdata = [5]\<rparr>],
                           torch_rng := 3\<rparr>)"
  by (simp add: eval_defs env_neg_def after_step_neg_def gld_update_def)

text \<open>
  C5. When the baseline wins a step, so that the winning scale is \<open>None\<close>, the following
  \<open>gld_update\<close> returns, leaves every parameter of the model as it is and advances the
  learning-rate schedule by exactly one step; besides the schedule it only reseeds torch's
  generator.
\<close>

theorem gld_update_baseline_won:
  assumes "gld_step env self inputs = Inr (l, self')" and "best_scale self' = None"
  shows "\<exists>self''. gld_update env self' = Inr self'' \<and> model self'' = model self' \<and>
           lr_scheduler self'' = lr_scheduler self' + 1 \<and>
           self'' = self'\<lparr>torch_rng := torch_rng self'', lr_scheduler := lr_scheduler self' + 1\<rparr>"
proof -
  from gld_step_frame [OF assms(1)] obtain seed where "gld_seed self' = Some seed" by blast
  from gld_update_baseline [OF this assms(2), of env] show ?thesis by simp
qed

theorem gld_update_baseline_won_witness:
  "gld_step env0 trainer0 () = Inr (Fin 8, after_step0) \<and> best_scale after_step0 = None \<and>
   (\<exists>self''. gld_update env0 after_step0 = Inr self'' \<and> model self'' = model after_step0 \<and>
           lr_scheduler self'' = lr_scheduler after_step0 + 1 \<and>
           self'' = after_step0\<lparr>torch_rng := torch_rng self'',
                                lr_scheduler := lr_scheduler after_step0 + 1\<rparr>)"
proof -
  have p: "gld_step env0 trainer0 () = Inr (Fin 8, after_step0)"
    by (simp add: eval_defs after_step0_def)
  have q: "best_scale after_step0 = None" by (simp add: after_step0_def)
  show ?thesis using p q gld_update_baseline_won [OF p q] by blast
qed

text \<open>
  C7, as stated, fails: after a step that the baseline won, two calls of \<open>gld_update\<close> in
  a row both return, and the second advances the learning-rate schedule once more.
\<close>

theorem gld_update_twice_counterexample:
  "gld_step env0 trainer0 () = Inr (Fin 8, after_step0) \<and>
   gld_update env0 after_step0 = Inr (after_step0\<lparr>torch_rng := 0, lr_scheduler := 1\<rparr>) \<and>
   gld_update env0 (after_step0\<lparr>torch_rng := 0, lr_scheduler := 1\<rparr>)
     = Inr (after_step0\<lparr>torch_rng := 0, lr_scheduler := 2\<rparr>)"
  by (simp add: eval_defs after_step0_def gld_update_def)

text \<open>
  C7, amended. \<open>gld_update\<close> checks no precondition and does not invalidate the winning
  state. Called before any \<open>gld_step\<close>, that is while \<open>gld_seed\<close> is unassigned as it is
  after \<open>__init__\<close>, it raises \<open>AttributeError\<close>. Called twice in a row after a step that
  the baseline won, both calls return: the parameters stay as they are and the
  learning-rate schedule advances once for each call.
\<close>

theorem gld_update_pairing:
  "(gld_seed self = None \<longrightarrow> gld_update env self = Inl AttributeError) \<and>
   (init u mn mx n m g1 g2 = Inr (Regular self) \<longrightarrow>
      gld_update env self = Inl AttributeError) \<and>
   (gld_seed self = Some s \<and> best_scale self = None \<longrightarrow>
      (\<exists>self1 self2. gld_update env self = Inr self1 \<and> gld_update env self1 = Inr self2 \<and>
         model self1 = model self \<and> model self2 = model self \<and>
         lr_scheduler self1 = lr_scheduler self + 1 \<and>
         lr_scheduler self2 = lr_scheduler self + 2))"
proof (intro conjI impI)
  assume "gld_seed self = None"
  then show "gld_update env self = Inl AttributeError" by (rule gld_update_unset)
next
  assume "init u mn mx n m g1 g2 = Inr (Regular self)"
  then have "gld_seed self = None" using init_Regular by blast
  then show "gld_update env self = Inl AttributeError" by (rule gld_update_unset)
next
  assume a: "gld_seed self = Some s \<and> best_scale self = None"
  let ?self1 = "self\<lparr>torch_rng := torch_manual_seed env s, lr_scheduler := lr_scheduler self + 1\<rparr>"
  have one: "gld_update env self = Inr ?self1" using a by (simp add: gld_update_baseline)
  have "gld_seed ?self1 = Some s" "best_scale ?self1 = None" using a by simp_all
  from gld_update_baseline [OF this, of env]
  have two: "gld_update env ?self1 =
     Inr (?self1\<lparr>torch_rng := torch_manual_seed env s, lr_scheduler := lr_scheduler ?self1 + 1\<rparr>)" .
  show "\<exists>self1 self2. gld_update env self = Inr self1 \<and> gld_update env self1 = Inr self2 \<and>
         model self1 = model self \<and> model self2 = model self \<and>
         lr_scheduler self1 = lr_scheduler self + 1 \<and>
         lr_scheduler self2 = lr_scheduler self + 2"
    using one two by simp
qed

theorem gld_update_pairing_witness:
  "gld_seed trainer0 = None \<and> gld_update env0 trainer0 = Inl AttributeError \<and>
   init True (PyFloat (Fin 1)) (PyFloat (Fin 8)) 1 model0 0 0 = Inr (Regular constructed0) \<and>
   gld_update env0 constructed0 = Inl AttributeError \<and>
   gld_seed after_step0 = Some 0 \<and> best_scale after_step0 = None \<and>
   (\<exists>self1 self2. gld_update env0 after_step0 = Inr self1 \<and> gld_update env0 self1 = Inr self2 \<and>
      model self1 = model after_step0 \<and> model self2 = model after_step0 \<and>
      lr_scheduler self1 = lr_scheduler after_step0 + 1 \<and>
      lr_scheduler self2 = lr_scheduler after_step0 + 2)"
proof -
  have a: "gld_seed trainer0 = None" by (simp add: trainer0_def constructed0_def)
  have b: "init True (PyFloat (Fin 1)) (PyFloat (Fin 8)) 1 model0 0 0 = Inr (Regular constructed0)"
    by (rule init_constructed0)
  have c: "gld_seed after_step0 = Some 0 \<and> best_scale after_step0 = None"
    by (simp add: after_step0_def)
  show ?thesis
    using a b c
      gld_update_pairing [of trainer0 env0 True "PyFloat (Fin 1)" "PyFloat (Fin 8)" 1 model0 0 0 0]
      gld_update_pairing [of constructed0 env0 True "PyFloat (Fin 1)" "PyFloat (Fin 8)" 1 model0 0 0 0]
      gld_update_pairing [of after_step0 env0 True "PyFloat (Fin 1)" "PyFloat (Fin 8)" 1 model0 0 0 0]
    by blast
qed

subsection \<open>More on the construction of a single radius\<close>



lemma np_linspace_single_inf:
  "np_linspace (Fin 0) PInf 1 = Inr [NaN]" "np_linspace (Fin 0) NaN 1 = Inr [NaN]"
  by (simp_all add: np_linspace_def fl_sub_def signed_inf_def)




subsection \<open>Construction\<close>

text \<open>
  C6, as stated, fails: \<open>__init__\<close> returns a trainer for \<open>min_radius = 2.0\<close>,
  \<open>max_radius = 1.0\<close> (a negative \<open>log_radius\<close>) and for \<open>num_ball_samples = 0\<close> (an empty
  search space).
\<close>

theorem init_no_validation_counterexample:
  "(1::real) \<le> 2 \<and>
   init True (PyFloat (Fin 2)) (PyFloat (Fin 1)) 4 model0 0 0 =
     Inr (Regular \<lparr> use_gld = True, min_radius = 2, max_radius = 1, best_scale = None,
           log_radius = ln (1 / 2),
           search_space = [0, ln (1 / 2) / 3, 2 * ln (1 / 2) / 3, ln (1 / 2)],
           gld_seed = None, losses = [], model = model0, named_parameters_to_optim = None,
           lr_scheduler = 0, torch_rng = 0, np_rng = 0 \<rparr>) \<and>
   (0::int) < 1 \<and>
   init True (PyFloat (Fin 1)) (PyFloat (Fin 8)) 0 model0 0 0 =
     Inr (Regular \<lparr> use_gld = True, min_radius = 1, max_radius = 8, best_scale = None,
           log_radius = ln 8, search_space = [], gld_seed = None, losses = [],
           model = model0, named_parameters_to_optim = None, lr_scheduler = 0,
           torch_rng = 0, np_rng = 0 \<rparr>)"
  using init_2_1_4 init_1_8_0 by simp

text \<open>
  C6, amended. \<open>__init__\<close> validates nothing itself and raises exactly where its arithmetic
  does. For finite float radii: \<open>ZeroDivisionError\<close> when \<open>min_radius\<close> is zero;
  \<open>ValueError\<close> from \<open>math.log\<close> when the quotient \<open>max_radius / min_radius\<close> is not
  positive as a double, that is when it is negative, zero or so small that it rounds to
  zero; \<open>ValueError\<close> from \<open>np.linspace\<close> when \<open>num_ball_samples\<close> is negative. Every
  other configuration of finite float radii, among them \<open>0 < max_radius \<le> min_radius\<close>
  and \<open>num_ball_samples = 0\<close>, constructs a trainer with \<open>num_ball_samples\<close> radii, whose
  \<open>log_radius\<close> is \<open>ln (max_radius / min_radius)\<close>, or \<open>+inf\<close> when the quotient
  overflows. For \<open>int\<close> radii: \<open>ZeroDivisionError\<close> when \<open>min_radius\<close> is zero, and
  \<open>OverflowError\<close> when the quotient, or an \<open>int\<close> radius divided with a float one, is too
  large for a double.
\<close>

theorem init_raises_only_in_arithmetic:
  "(mn = 0 \<longrightarrow>
      init u (PyFloat (Fin mn)) (PyFloat (Fin mx)) n m g1 g2 = Inl ZeroDivisionError) \<and>
   (mn \<noteq> 0 \<and> mx / mn \<le> dbl_underflow \<longrightarrow>
      init u (PyFloat (Fin mn)) (PyFloat (Fin mx)) n m g1 g2 = Inl ValueError) \<and>
   (mn \<noteq> 0 \<and> dbl_underflow < mx / mn \<and> n < 0 \<longrightarrow>
      init u (PyFloat (Fin mn)) (PyFloat (Fin mx)) n m g1 g2 = Inl ValueError) \<and>
   (mn \<noteq> 0 \<and> dbl_underflow < mx / mn \<and> 0 \<le> n \<longrightarrow>
      (\<exists>c. init u (PyFloat (Fin mn)) (PyFloat (Fin mx)) n m g1 g2 = Inr c \<and>
         log_radius_of c = (if mx / mn < dbl_overflow then Fin (ln (mx / mn)) else PInf) \<and>
         length (search_space_of c) = nat n)) \<and>
   (j = 0 \<longrightarrow> init u (PyInt j) (PyInt i) n m g1 g2 = Inl ZeroDivisionError) \<and>
   (j \<noteq> 0 \<and> dbl_overflow \<le> \<bar>real_of_int i / real_of_int j\<bar> \<longrightarrow>
      init u (PyInt j) (PyInt i) n m g1 g2 = Inl OverflowError) \<and>
   (dbl_overflow \<le> \<bar>real_of_int i\<bar> \<longrightarrow>
      init u (PyFloat f) (PyInt i) n m g1 g2 = Inl OverflowError \<and>
      init u (PyInt i) (PyFloat f) n m g1 g2 = Inl OverflowError)"
proof (intro conjI impI)
  assume "mn = 0"
  then show "init u (PyFloat (Fin mn)) (PyFloat (Fin mx)) n m g1 g2 = Inl ZeroDivisionError"
    by (simp add: init_def py_truediv_floats)
next
  assume a: "mn \<noteq> 0 \<and> mx / mn \<le> dbl_underflow"
  then have "math_log (to_double (mx / mn)) = Inl ValueError"
    by (simp add: math_log_nonpositive)
  then show "init u (PyFloat (Fin mn)) (PyFloat (Fin mx)) n m g1 g2 = Inl ValueError"
    using a by (simp add: init_def py_truediv_floats)
next
  assume a: "mn \<noteq> 0 \<and> dbl_underflow < mx / mn \<and> n < 0"
  then have "math_log (to_double (mx / mn)) =
      Inr (if mx / mn < dbl_overflow then Fin (ln (mx / mn)) else PInf)"
    by (simp add: math_log_to_double)
  then show "init u (PyFloat (Fin mn)) (PyFloat (Fin mx)) n m g1 g2 = Inl ValueError"
    using a by (simp add: init_def py_truediv_floats np_linspace_negative)
next
  assume a: "mn \<noteq> 0 \<and> dbl_underflow < mx / mn \<and> 0 \<le> n"
  let ?lr = "if mx / mn < dbl_overflow then Fin (ln (mx / mn)) else PInf"
  have q: "py_truediv (PyFloat (Fin mx)) (PyFloat (Fin mn)) = Inr (to_double (mx / mn))"
    using a by (simp add: py_truediv_floats)
  have l: "math_log (to_double (mx / mn)) = Inr ?lr"
    using a by (simp add: math_log_to_double)
  from np_linspace_total [of n "Fin 0" ?lr] a obtain space where
    sp: "np_linspace (Fin 0) ?lr n = Inr space" by blast
  from init_result [OF q l sp, of u m g1 g2] obtain c where
    c: "init u (PyFloat (Fin mn)) (PyFloat (Fin mx)) n m g1 g2 = Inr c"
       "log_radius_of c = ?lr" "search_space_of c = space"
    by blast
  have "length (search_space_of c) = nat n"
    using length_np_linspace [OF sp] c(3) by simp
  with c show "\<exists>c. init u (PyFloat (Fin mn)) (PyFloat (Fin mx)) n m g1 g2 = Inr c \<and>
         log_radius_of c = ?lr \<and> length (search_space_of c) = nat n"
    by blast
next
  assume "j = 0"
  then show "init u (PyInt j) (PyInt i) n m g1 g2 = Inl ZeroDivisionError"
    by (simp add: init_def py_truediv_def)
next
  assume "j \<noteq> 0 \<and> dbl_overflow \<le> \<bar>real_of_int i / real_of_int j\<bar>"
  then show "init u (PyInt j) (PyInt i) n m g1 g2 = Inl OverflowError"
    by (simp add: init_def py_truediv_def)
next
  assume "dbl_overflow \<le> \<bar>real_of_int i\<bar>"
  then show "init u (PyFloat f) (PyInt i) n m g1 g2 = Inl OverflowError"
    by (simp add: init_def py_truediv_def as_double_def)
next
  assume "dbl_overflow \<le> \<bar>real_of_int i\<bar>"
  then show "init u (PyInt i) (PyFloat f) n m g1 g2 = Inl OverflowError"
    by (simp add: init_def py_truediv_def as_double_def)
qed

theorem init_raises_only_in_arithmetic_witness:
  "init True (PyFloat (Fin 0)) (PyFloat (Fin 8)) 4 model0 0 0 = Inl ZeroDivisionError \<and>
   (1::real) \<noteq> 0 \<and> (- 8::real) / 1 \<le> dbl_underflow \<and>
   init True (PyFloat (Fin 1)) (PyFloat (Fin (- 8))) 4 model0 0 0 = Inl ValueError \<and>
   (2 ^ 1023 :: real) \<noteq> 0 \<and> (1 / 2 ^ 1022 :: real) / 2 ^ 1023 \<le> dbl_underflow \<and>
   init True (PyFloat (Fin (2 ^ 1023))) (PyFloat (Fin (1 / 2 ^ 1022))) 4 model0 0 0
     = Inl ValueError \<and>
   dbl_underflow < 8 / 1 \<and> (- 1::int) < 0 \<and>
   init True (PyFloat (Fin 1)) (PyFloat (Fin 8)) (- 1) model0 0 0 = Inl ValueError \<and>
   (2::real) \<noteq> 0 \<and> dbl_underflow < 1 / 2 \<and> (0::int) \<le> 0 \<and>
   (\<exists>c. init True (PyFloat (Fin 2)) (PyFloat (Fin 1)) 0 model0 0 0 = Inr c \<and>
      log_radius_of c = Fin (ln (1 / 2)) \<and> length (search_space_of c) = nat 0) \<and>
   init True (PyInt 0) (PyInt 1) 4 model0 0 0 = Inl ZeroDivisionError \<and>
   (1::int) \<noteq> 0 \<and> dbl_overflow \<le> \<bar>real_of_int (2 ^ 1024) / real_of_int 1\<bar> \<and>
   init True (PyInt 1) (PyInt (2 ^ 1024)) 4 model0 0 0 = Inl OverflowError \<and>
   init True (PyFloat (Fin 1)) (PyInt (2 ^ 1024)) 4 model0 0 0 = Inl OverflowError \<and>
   init True (PyInt (2 ^ 1024)) (PyFloat (Fin 1)) 4 model0 0 0 = Inl OverflowError"
proof -
  have u: "(- 8::real) / 1 \<le> dbl_underflow" "(1 / 2 ^ 1022 :: real) / 2 ^ 1023 \<le> dbl_underflow"
    "dbl_underflow < 8 / 1" "dbl_underflow < 1 / 2"
    by (simp_all add: dbl_underflow_def)
  have o: "dbl_overflow \<le> \<bar>real_of_int (2 ^ 1024) / real_of_int 1\<bar>"
    "dbl_overflow \<le> \<bar>real_of_int (2 ^ 1024)\<bar>" "(1 / 2 :: real) < dbl_overflow"
    by (simp_all add: dbl_overflow_def)
  note t = init_raises_only_in_arithmetic [where u = True and m = model0 and ?g1.0 = 0
      and ?g2.0 = 0]
  show ?thesis
    using u o
      t [where mn = 0 and mx = 8 and n = 4 and j = 0 and i = 1 and f = "Fin 1"]
      t [where mn = 1 and mx = "- 8" and n = 4 and j = 1 and i = "2 ^ 1024" and f = "Fin 1"]
      t [where mn = "2 ^ 1023" and mx = "1 / 2 ^ 1022" and n = 4 and j = 1 and i = 1
          and f = "Fin 1"]
      t [where mn = 1 and mx = 8 and n = "- 1" and j = 1 and i = 1 and f = "Fin 1"]
      t [where mn = 2 and mx = 1 and n = 0 and j = 1 and i = 1 and f = "Fin 1"]
    by simp
qed

text \<open>
  C8, as stated, fails: for \<open>min_radius = 1\<close>, \<open>max_radius = 8\<close>,
  \<open>num_ball_samples = 4\<close> the scales of the trials are not \<open>8, 4, 2, 1\<close>; the second is
  above \<open>4\<close>, the third above \<open>2\<close> and the last above \<open>min_radius\<close>.
\<close>

theorem scales_1_8_4_counterexample:
  "init True (PyFloat (Fin 1)) (PyFloat (Fin 8)) 4 model0 0 0 = Inr (Regular constructed_1_8_4) \<and>
   trial_scales constructed_1_8_4 \<noteq> [8, 4, 2, 1] \<and>
   trial_scales constructed_1_8_4 ! 1 > 4 \<and>
   trial_scales constructed_1_8_4 ! 2 > 2 \<and>
   trial_scales constructed_1_8_4 ! 3 > min_radius constructed_1_8_4"
proof -
  have m: "min_radius constructed_1_8_4 = 1" by (simp add: constructed_1_8_4_def)
  have "trial_scales constructed_1_8_4 \<noteq> [8, 4, 2, 1]"
    unfolding scales_1_8_4 using scale_bounds(1) by simp
  moreover have "trial_scales constructed_1_8_4 ! 1 > 4"
    unfolding scales_1_8_4 using scale_bounds(1) by simp
  moreover have "trial_scales constructed_1_8_4 ! 2 > 2"
    unfolding scales_1_8_4 using scale_bounds(2) by simp
  moreover have "trial_scales constructed_1_8_4 ! 3 > min_radius constructed_1_8_4"
    unfolding scales_1_8_4 m using scale_bounds(3) by simp
  ultimately show ?thesis using init_1_8_4 by simp
qed

text \<open>
  C8, amended. For \<open>min_radius = 1\<close>, \<open>max_radius = 8\<close>, \<open>num_ball_samples = 4\<close> the
  search space is the four evenly spaced radii \<open>0, ln 2, 2 ln 2, ln 8\<close> with
  \<open>ln 8 = 3 ln 2\<close>, and the scales \<open>2 ** (-radius) * max_radius\<close> of the trials are
  \<open>8\<close>, \<open>8 * 2 ** (- ln 2)\<close>, \<open>8 * 2 ** (- 2 ln 2)\<close> and \<open>8 * 2 ** (- ln 8)\<close>: they
  start at \<open>max_radius\<close> and decrease strictly, but stay above \<open>4\<close>, \<open>2\<close> and \<open>1\<close>
  respectively, so the last one does not reach \<open>min_radius\<close>.
\<close>

theorem init_scales_1_8_4:
  "\<exists>self. init True (PyFloat (Fin 1)) (PyFloat (Fin 8)) 4 model0 0 0 = Inr (Regular self) \<and>
     log_radius self = ln 8 \<and>
     search_space self = [0, ln 2, 2 * ln 2, ln 8] \<and> ln 8 = 3 * ln (2::real) \<and>
     trial_scales self = [8, 8 * 2 powr (- ln 2), 8 * 2 powr (- (2 * ln 2)), 8 * 2 powr (- ln 8)] \<and>
     max_radius self = 8 \<and> min_radius self = 1 \<and>
     8 * (2::real) powr (- ln 2) < 8 \<and> 4 < 8 * (2::real) powr (- ln 2) \<and>
     8 * (2::real) powr (- (2 * ln 2)) < 8 * 2 powr (- ln 2) \<and>
     2 < 8 * (2::real) powr (- (2 * ln 2)) \<and>
     8 * (2::real) powr (- ln 8) < 8 * 2 powr (- (2 * ln 2)) \<and>
     1 < 8 * (2::real) powr (- ln 8)"
proof -
  have s: "search_space constructed_1_8_4 = [0, ln 2, 2 * ln 2, ln 8]"
    by (simp add: constructed_1_8_4_def ln8)
  have r: "log_radius constructed_1_8_4 = ln 8" "max_radius constructed_1_8_4 = 8"
    "min_radius constructed_1_8_4 = 1"
    by (simp_all add: constructed_1_8_4_def)
  show ?thesis
    using init_1_8_4 s r scales_1_8_4 ln8 scale_bounds scale_order
    by (intro exI [of _ constructed_1_8_4]) simp
qed




end
